theory Spec2Isabelle
  imports Complex_Main
begin

section \<open>The label codec and the evaluation helpers of train\_neural\_network.py\<close>

text \<open>
  The embedding covers the label codec (\<open>str2onehot\<close>, \<open>onehot2str\<close>), the confidence
  annotator (\<open>calculatePredictionConfidence\<close>), the multi-bucket decoder
  (\<open>prob2str_multibucket\<close>) and the metrics engine (\<open>precision_recall_f1\<close>,
  \<open>calculatePerformanceMetrics\<close>).

  Conventions of the embedding.
  \<^item> A Python \<open>str\<close> label is a \<open>string\<close>; a class index is a \<open>nat\<close>.
  \<^item> A 2-D \<open>ndarray\<close> of floats is the list of its rows, \<open>real list list\<close>; a 1-D array
    of strings is a \<open>string list\<close>. Floats are modelled as real numbers and a decimal
    literal as the number it writes. The codec, the annotator and the decoder only compare
    floats and store the constants \<open>0.\<close> and \<open>1.\<close>; the scores of the metrics engine are
    quotients of counts, taken as exact quotients (their rounding is not modelled).
  \<^item> Every exception the code can raise is a value of \<open>error\<close>, returned as \<open>Inl\<close>.
\<close>

datatype error = KeyError | ValueError | IndexError | AssertionError | ZeroDivisionError

subsection \<open>Configuration\<close>

text \<open>\<open>PROB_THRESHOLD\<close> and \<open>ENC_LIST\<close> are module-level globals. The set of class labels
  is the set of keys of \<open>ENC_LIST\<close>.\<close>

definition PROB_THRESHOLD :: real where
  "PROB_THRESHOLD = 0.20"

definition ENC_LIST :: "(string \<times> nat) list" where
  "ENC_LIST =
     [(''others'', 0), (''description'', 1), (''skills'', 2), (''job_title'', 3), (''education'', 4)]"

definition CLASS_LABELS :: "string set" where
  "CLASS_LABELS = fst ` set ENC_LIST"

text \<open>Python's \<open>dict(pairs)\<close>: pairs are inserted from left to right, a later pair
  overwrites an earlier one with the same key.\<close>

definition dict :: "('k \<times> 'v) list \<Rightarrow> ('k \<rightharpoonup> 'v)" where
  "dict ps = foldl (\<lambda>m (k, v). m(k \<mapsto> v)) Map.empty ps"

text \<open>\<open>d[k]\<close> raises \<open>KeyError\<close> for a missing key.\<close>

definition getitem :: "('k \<rightharpoonup> 'v) \<Rightarrow> 'k \<Rightarrow> error + 'v" where
  "getitem d k = (case d k of None \<Rightarrow> Inl KeyError | Some v \<Rightarrow> Inr v)"

subsection \<open>The numeric library calls of the codec\<close>

text \<open>\<open>np.argmax\<close>, \<open>np.vstack\<close> and the builtin \<open>max\<close> are modelled after their documented
  behaviour.

  \<open>np.argmax\<close> of one row: the index of the first occurrence of the maximum, so that ties
  go to the lowest index; an empty row raises \<open>ValueError\<close>. The scan keeps the best index
  and value seen so far and replaces them only by a strictly larger entry.\<close>

fun argmax_scan :: "real list \<Rightarrow> nat \<Rightarrow> nat \<Rightarrow> real \<Rightarrow> nat" where
  "argmax_scan [] i b v = b"
| "argmax_scan (x # xs) i b v =
     (if x > v then argmax_scan xs (Suc i) i x else argmax_scan xs (Suc i) b v)"

definition argmax_row :: "real list \<Rightarrow> error + nat" where
  "argmax_row row = (case row of [] \<Rightarrow> Inl ValueError | x # xs \<Rightarrow> Inr (argmax_scan xs 1 0 x))"

text \<open>\<open>np.argmax(onehot, axis=1).tolist()\<close>: one index per row.\<close>

fun np_argmax_axis1 :: "real list list \<Rightarrow> error + nat list" where
  "np_argmax_axis1 [] = Inr []"
| "np_argmax_axis1 (row # rows) =
     (case argmax_row row of
        Inl e \<Rightarrow> Inl e
      | Inr i \<Rightarrow> (case np_argmax_axis1 rows of Inl e \<Rightarrow> Inl e | Inr is \<Rightarrow> Inr (i # is)))"

text \<open>\<open>np.vstack\<close> of a list of 2-D blocks: the rows of all blocks in order. An empty
  list of blocks raises \<open>ValueError\<close> (nothing to concatenate), and so do blocks of
  different widths.\<close>

definition np_vstack :: "real list list list \<Rightarrow> error + real list list" where
  "np_vstack blocks =
     (if blocks = [] then Inl ValueError
      else let rows = concat blocks
           in if list_all (\<lambda>r. length r = length (hd rows)) rows then Inr rows
              else Inl ValueError)"

subsection \<open>onehot2str and str2onehot\<close>

text \<open>The loop of \<open>onehot2str\<close>: \<open>result_str.append(enc_dict[i])\<close> for every index.\<close>

fun onehot2str_loop :: "(nat \<rightharpoonup> string) \<Rightarrow> nat list \<Rightarrow> string list \<Rightarrow> error + string list" where
  "onehot2str_loop enc_dict [] result_str = Inr result_str"
| "onehot2str_loop enc_dict (i # idx_list) result_str =
     (case getitem enc_dict i of
        Inl e \<Rightarrow> Inl e
      | Inr s \<Rightarrow> onehot2str_loop enc_dict idx_list (result_str @ [s]))"

definition onehot2str :: "real list list \<Rightarrow> error + string list" where
  "onehot2str onehot =
     (let enc_dict = dict (map (\<lambda>i. (snd i, fst i)) ENC_LIST)
      in case np_argmax_axis1 onehot of
           Inl e \<Rightarrow> Inl e
         | Inr idx_list \<Rightarrow> onehot2str_loop enc_dict idx_list [])"

text \<open>The loop of \<open>str2onehot\<close>: a fresh \<open>1 \<times> len(ENC_LIST)\<close> block of zeros per label,
  with a \<open>1.\<close> stored at the label's index. Storing outside the block raises
  \<open>IndexError\<close>.\<close>

fun str2onehot_loop ::
  "(string \<rightharpoonup> nat) \<Rightarrow> string list \<Rightarrow> real list list list \<Rightarrow> error + real list list list" where
  "str2onehot_loop enc_dict [] new_Y = Inr new_Y"
| "str2onehot_loop enc_dict (y # Y) new_Y =
     (let vec = replicate (length ENC_LIST) 0
      in case getitem enc_dict y of
           Inl e \<Rightarrow> Inl e
         | Inr k \<Rightarrow>
             if k < length vec then str2onehot_loop enc_dict Y (new_Y @ [[vec[k := 1]]])
             else Inl IndexError)"

definition str2onehot :: "string list \<Rightarrow> error + real list list" where
  "str2onehot Y =
     (let enc_dict = dict ENC_LIST
      in case str2onehot_loop enc_dict Y [] of
           Inl e \<Rightarrow> Inl e
         | Inr new_Y \<Rightarrow> np_vstack new_Y)"

subsection \<open>calculatePredictionConfidence\<close>

text \<open>The function returns a list of Python values. The values that matter here are strings
  and booleans.\<close>

datatype pyval = PyStr string | PyBool bool

text \<open>The builtin \<open>max\<close> of a row: \<open>ValueError\<close> on an empty row, and otherwise a scan
  that replaces the current maximum only by a strictly larger item.\<close>

definition py_max :: "real list \<Rightarrow> error + real" where
  "py_max xs =
     (case xs of
        [] \<Rightarrow> Inl ValueError
      | x # rest \<Rightarrow> Inr (foldl (\<lambda>m y. if y > m then y else m) x rest))"

text \<open>The local constant \<open>CONFIDENCE_THRESHOLD\<close> of \<open>calculatePredictionConfidence\<close>.\<close>

definition CONFIDENCE_THRESHOLD :: real where
  "CONFIDENCE_THRESHOLD = 0.65"

fun confidence_loop :: "real list list \<Rightarrow> pyval list \<Rightarrow> error + pyval list" where
  "confidence_loop [] confidence_list = Inr confidence_list"
| "confidence_loop (probs # pred) confidence_list =
     (case py_max probs of
        Inl e \<Rightarrow> Inl e
      | Inr m \<Rightarrow>
          if m > CONFIDENCE_THRESHOLD
          then confidence_loop pred (confidence_list @ [PyStr ''YES''])
          else confidence_loop pred (confidence_list @ [PyStr ''NO'']))"

definition calculatePredictionConfidence :: "real list list \<Rightarrow> error + pyval list" where
  "calculatePredictionConfidence pred = confidence_loop pred []"

subsection \<open>prob2str\_multibucket\<close>

text \<open>The inner loop over \<open>enumerate(prob)\<close>: every entry at or above the threshold appends
  its label and the separator \<open>", "\<close> to \<open>classes\<close>. The loops read the global
  \<open>PROB_THRESHOLD\<close> at every comparison; they take its value as the argument \<open>thr\<close>, and
  \<open>prob2str_multibucket\<close> passes the configured one. (The comment above the function speaks
  of a probability ``greater than a threshold''; the comparison in the code is \<open>>=\<close>, so an
  entry equal to the threshold is included.)\<close>

fun classes_loop ::
  "(nat \<rightharpoonup> string) \<Rightarrow> real \<Rightarrow> (nat \<times> real) list \<Rightarrow> string \<Rightarrow> error + string" where
  "classes_loop enc_dict thr [] classes = Inr classes"
| "classes_loop enc_dict thr ((idx, pro) # rest) classes =
     (if pro \<ge> thr
      then (case getitem enc_dict idx of
              Inl e \<Rightarrow> Inl e
            | Inr s \<Rightarrow> classes_loop enc_dict thr rest (classes @ s @ '', ''))
      else classes_loop enc_dict thr rest classes)"

text \<open>The slice \<open>classes[:-2]\<close>: all but the last two characters, and the empty string when
  there are fewer than two.\<close>

definition drop_last2 :: "string \<Rightarrow> string" where
  "drop_last2 classes = take (length classes - 2) classes"

text \<open>The outer loop over \<open>zip(probs, sens)\<close>, which stops at the end of the shorter of the
  two sequences.\<close>

fun prob2str_loop ::
  "(nat \<rightharpoonup> string) \<Rightarrow> real \<Rightarrow> (real list \<times> 'a) list \<Rightarrow> string list \<Rightarrow> 'a list \<Rightarrow>
     error + string list \<times> 'a list" where
  "prob2str_loop enc_dict thr [] cats final_sens = Inr (cats, final_sens)"
| "prob2str_loop enc_dict thr ((prob, sen) # rest) cats final_sens =
     (case classes_loop enc_dict thr (enumerate 0 prob) [] of
        Inl e \<Rightarrow> Inl e
      | Inr classes \<Rightarrow>
          prob2str_loop enc_dict thr rest (cats @ [drop_last2 classes]) (final_sens @ [sen]))"

definition prob2str_multibucket_thr ::
  "real \<Rightarrow> real list list \<Rightarrow> 'a list \<Rightarrow> error + string list \<times> 'a list" where
  "prob2str_multibucket_thr thr probs sens =
     (let enc_dict = dict (map (\<lambda>i. (snd i, fst i)) ENC_LIST)
      in prob2str_loop enc_dict thr (zip probs sens) [] [])"

definition prob2str_multibucket ::
  "real list list \<Rightarrow> 'a list \<Rightarrow> error + string list \<times> 'a list" where
  "prob2str_multibucket probs sens = prob2str_multibucket_thr PROB_THRESHOLD probs sens"

text \<open>The decoder as the specification words it: the labels whose probability is at or
  above the threshold, in the order of their class index (the order of \<open>ENC_LIST\<close>),
  joined by \<open>", "\<close> with no separator after the last one.\<close>

fun comma_join :: "string list \<Rightarrow> string" where
  "comma_join [] = []"
| "comma_join [s] = s"
| "comma_join (s # t # ss) = s @ '', '' @ comma_join (t # ss)"

definition labels_at_or_above :: "real \<Rightarrow> real list \<Rightarrow> string list" where
  "labels_at_or_above thr prob = map fst (filter (\<lambda>(l, k). thr \<le> prob ! k) ENC_LIST)"

subsection \<open>The metrics engine\<close>

text \<open>The scoring functions \<open>accuracy_score\<close>, \<open>precision_score\<close>, \<open>recall_score\<close>, \<open>f1_score\<close>
  and \<open>confusion_matrix\<close> are imported from scikit-learn; the repository holds only their
  calls. Their values are modelled from section 4.3 of the specification, and the inputs they
  reject from the library's input validation.\<close>

text \<open>Modelled from the spec: the scores are defined for two label sequences of the same
  length (``len(predicted) == len(actual)''). The scoring functions, missing from the sources,
  validate their arguments first and reject sequences of different lengths, and empty ones,
  with \<open>ValueError\<close>. (Some earlier releases of the library go on with empty sequences; no
  theorem below depends on what happens to them.)\<close>

definition check_targets :: "string list \<Rightarrow> string list \<Rightarrow> error + unit" where
  "check_targets y_true y_pred =
     (if length y_true \<noteq> length y_pred \<or> y_true = [] then Inl ValueError else Inr ())"

text \<open>A quotient of two floats. It is not defined for the denominator zero;
  \<open>ZeroDivisionError\<close> stands for the undefined quotient.\<close>

definition true_divide :: "real \<Rightarrow> real \<Rightarrow> error + real" where
  "true_divide n d = (if d = 0 then Inl ZeroDivisionError else Inr (n / d))"

text \<open>Running a fallible function over a list, in order; the first failure ends the run.\<close>

fun collect :: "('a \<Rightarrow> error + 'b) \<Rightarrow> 'a list \<Rightarrow> error + 'b list" where
  "collect f [] = Inr []"
| "collect f (x # xs) =
     (case f x of
        Inl e \<Rightarrow> Inl e
      | Inr y \<Rightarrow> (case collect f xs of Inl e \<Rightarrow> Inl e | Inr ys \<Rightarrow> Inr (y # ys)))"

text \<open>Modelled from the spec: \<open>accuracy_score(y_true, y_pred, normalize=False)\<close>, missing from
  the sources, is the number of exact label matches (``incorrect count = total - matches'').\<close>

definition accuracy_score_count :: "string list \<Rightarrow> string list \<Rightarrow> error + nat" where
  "accuracy_score_count y_true y_pred =
     (case check_targets y_true y_pred of
        Inl e \<Rightarrow> Inl e
      | Inr _ \<Rightarrow> Inr (length (filter (\<lambda>(t, p). t = p) (zip y_true y_pred))))"

text \<open>Modelled from the spec: \<open>accuracy_score(y_true, y_pred)\<close>, missing from the sources, is
  the ``fraction of exact label matches''.\<close>

definition accuracy_score :: "string list \<Rightarrow> string list \<Rightarrow> error + real" where
  "accuracy_score y_true y_pred =
     (case accuracy_score_count y_true y_pred of
        Inl e \<Rightarrow> Inl e
      | Inr n \<Rightarrow> true_divide (real n) (real (length y_true)))"

text \<open>Modelled from the spec: the true positives (TP) of a class ``treated as positive
  versus rest'', counted inside the missing scoring functions: the positions where the class
  is both the actual and the predicted label.\<close>

definition true_positives :: "string \<Rightarrow> string list \<Rightarrow> string list \<Rightarrow> nat" where
  "true_positives c y_true y_pred =
     length (filter (\<lambda>(t, p). t = c \<and> p = c) (zip y_true y_pred))"

text \<open>Modelled from the spec: the predicted positives (TP + FP) of a class, counted inside
  the missing scoring functions: the positions where the class is predicted.\<close>

definition predicted_positives :: "string \<Rightarrow> string list \<Rightarrow> nat" where
  "predicted_positives c y_pred = length (filter (\<lambda>p. p = c) y_pred)"

text \<open>Modelled from the spec: the actual positives (TP + FN) of a class, its support,
  counted inside the missing scoring functions: the positions where the class is the actual
  label.\<close>

definition actual_positives :: "string \<Rightarrow> string list \<Rightarrow> nat" where
  "actual_positives c y_true = length (filter (\<lambda>t. t = c) y_true)"

text \<open>Modelled from the spec: the quotient of the missing scoring functions, with the
  ``zero\_division -> 0'' convention: a zero denominator yields the score zero instead of the
  undefined quotient.\<close>

definition zero_division :: "real \<Rightarrow> real \<Rightarrow> error + real" where
  "zero_division n d = (if d = 0 then Inr 0 else true_divide n d)"

text \<open>Modelled from the spec: the precision of one class inside the missing
  \<open>precision_score\<close>, ``precision = TP/(TP+FP)''.\<close>

definition class_precision :: "string list \<Rightarrow> string list \<Rightarrow> string \<Rightarrow> error + real" where
  "class_precision y_true y_pred c =
     zero_division (real (true_positives c y_true y_pred)) (real (predicted_positives c y_pred))"

text \<open>Modelled from the spec: the recall of one class inside the missing \<open>recall_score\<close>,
  ``recall = TP/(TP+FN)''.\<close>

definition class_recall :: "string list \<Rightarrow> string list \<Rightarrow> string \<Rightarrow> error + real" where
  "class_recall y_true y_pred c =
     zero_division (real (true_positives c y_true y_pred)) (real (actual_positives c y_true))"

text \<open>Modelled from the spec: the harmonic mean of a precision and a recall, zero when both
  are zero.\<close>

definition harmonic_mean :: "error + real \<Rightarrow> error + real \<Rightarrow> error + real" where
  "harmonic_mean precision recall =
     (case precision of
        Inl e \<Rightarrow> Inl e
      | Inr p \<Rightarrow> (case recall of Inl e \<Rightarrow> Inl e | Inr r \<Rightarrow> zero_division (2 * p * r) (p + r)))"

text \<open>Modelled from the spec: the F1 score of one class inside the missing \<open>f1_score\<close>,
  ``F1 = harmonic mean'' of its precision and its recall.\<close>

definition class_f1 :: "string list \<Rightarrow> string list \<Rightarrow> string \<Rightarrow> error + real" where
  "class_f1 y_true y_pred c =
     harmonic_mean (class_precision y_true y_pred c) (class_recall y_true y_pred c)"

text \<open>Modelled from the spec: \<open>precision_score\<close> with \<open>average=None\<close> and
  \<open>labels=classlist\<close>, missing from the sources: the precision of every listed class, in
  the order of the list.\<close>

definition precision_score :: "string list \<Rightarrow> string list \<Rightarrow> string list \<Rightarrow> error + real list" where
  "precision_score y_true y_pred labels =
     (case check_targets y_true y_pred of
        Inl e \<Rightarrow> Inl e
      | Inr _ \<Rightarrow> collect (class_precision y_true y_pred) labels)"

text \<open>Modelled from the spec: \<open>recall_score\<close> with \<open>average=None\<close> and \<open>labels=classlist\<close>,
  missing from the sources: the recall of every listed class, in the order of the list.\<close>

definition recall_score :: "string list \<Rightarrow> string list \<Rightarrow> string list \<Rightarrow> error + real list" where
  "recall_score y_true y_pred labels =
     (case check_targets y_true y_pred of
        Inl e \<Rightarrow> Inl e
      | Inr _ \<Rightarrow> collect (class_recall y_true y_pred) labels)"

text \<open>Modelled from the spec: \<open>f1_score\<close> with \<open>average=None\<close> and \<open>labels=classlist\<close>,
  missing from the sources: the F1 score of every listed class, in the order of the list.\<close>

definition f1_score :: "string list \<Rightarrow> string list \<Rightarrow> string list \<Rightarrow> error + real list" where
  "f1_score y_true y_pred labels =
     (case check_targets y_true y_pred of
        Inl e \<Rightarrow> Inl e
      | Inr _ \<Rightarrow> collect (class_f1 y_true y_pred) labels)"

text \<open>The three values of the argument \<open>average\<close> that \<open>micro_macro_weighted\<close> passes.\<close>

datatype average = Micro | Macro | Weighted

text \<open>Modelled from the spec: called without \<open>labels\<close>, the missing scoring functions
  aggregate over the classes that occur in either sequence. (The library sorts them; the
  aggregates are sums, which do not depend on the order.)\<close>

definition present_labels :: "string list \<Rightarrow> string list \<Rightarrow> string list" where
  "present_labels y_true y_pred = remdups (y_true @ y_pred)"

text \<open>Modelled from the spec: a count pooled ``across classes'', for the micro aggregate.\<close>

definition pooled :: "(string \<Rightarrow> nat) \<Rightarrow> string list \<Rightarrow> real" where
  "pooled count labels = real (sum_list (map count labels))"

text \<open>Modelled from the spec: the three aggregates of the missing scoring functions. Micro
  is the score of the pooled counts, handed over as \<open>micro\<close>; macro is the ``unweighted mean
  of per-class metrics''; weighted is the per-class metrics ``weighted by each class's
  support divided by total instances''.\<close>

definition averaged ::
  "average \<Rightarrow> error + real \<Rightarrow> (string \<Rightarrow> error + real) \<Rightarrow> string list \<Rightarrow> string list \<Rightarrow>
     error + real" where
  "averaged avg micro per_class y_true labels =
     (case avg of
        Micro \<Rightarrow> micro
      | Macro \<Rightarrow>
          (case collect per_class labels of
             Inl e \<Rightarrow> Inl e
           | Inr scores \<Rightarrow> true_divide (sum_list scores) (real (length scores)))
      | Weighted \<Rightarrow>
          (case collect per_class labels of
             Inl e \<Rightarrow> Inl e
           | Inr scores \<Rightarrow>
               zero_division
                 (sum_list (map (\<lambda>(c, s). real (actual_positives c y_true) * s) (zip labels scores)))
                 (pooled (\<lambda>c. actual_positives c y_true) labels)))"

text \<open>Modelled from the spec: the micro precision and the micro recall, the scores of the
  counts pooled over the present classes.\<close>

definition micro_precision :: "string list \<Rightarrow> string list \<Rightarrow> error + real" where
  "micro_precision y_true y_pred =
     zero_division (pooled (\<lambda>c. true_positives c y_true y_pred) (present_labels y_true y_pred))
       (pooled (\<lambda>c. predicted_positives c y_pred) (present_labels y_true y_pred))"

definition micro_recall :: "string list \<Rightarrow> string list \<Rightarrow> error + real" where
  "micro_recall y_true y_pred =
     zero_division (pooled (\<lambda>c. true_positives c y_true y_pred) (present_labels y_true y_pred))
       (pooled (\<lambda>c. actual_positives c y_true) (present_labels y_true y_pred))"

text \<open>Modelled from the spec: \<open>precision_score\<close>, \<open>recall_score\<close> and \<open>f1_score\<close> with
  \<open>average\<close> one of \<open>'micro'\<close>, \<open>'macro'\<close>, \<open>'weighted'\<close> and no \<open>labels\<close>, missing from the
  sources: one aggregate score.\<close>

definition precision_score_average ::
  "string list \<Rightarrow> string list \<Rightarrow> average \<Rightarrow> error + real" where
  "precision_score_average y_true y_pred avg =
     (case check_targets y_true y_pred of
        Inl e \<Rightarrow> Inl e
      | Inr _ \<Rightarrow>
          averaged avg (micro_precision y_true y_pred) (class_precision y_true y_pred) y_true
            (present_labels y_true y_pred))"

definition recall_score_average ::
  "string list \<Rightarrow> string list \<Rightarrow> average \<Rightarrow> error + real" where
  "recall_score_average y_true y_pred avg =
     (case check_targets y_true y_pred of
        Inl e \<Rightarrow> Inl e
      | Inr _ \<Rightarrow>
          averaged avg (micro_recall y_true y_pred) (class_recall y_true y_pred) y_true
            (present_labels y_true y_pred))"

definition f1_score_average ::
  "string list \<Rightarrow> string list \<Rightarrow> average \<Rightarrow> error + real" where
  "f1_score_average y_true y_pred avg =
     (case check_targets y_true y_pred of
        Inl e \<Rightarrow> Inl e
      | Inr _ \<Rightarrow>
          averaged avg (harmonic_mean (micro_precision y_true y_pred) (micro_recall y_true y_pred))
            (class_f1 y_true y_pred) y_true (present_labels y_true y_pred))"

text \<open>Modelled from the spec: \<open>confusion_matrix\<close> with \<open>labels=classlist\<close>, missing from the
  sources: ``count[i][j] = number of examples with true class i, predicted class j, under the
  fixed ordering''. The library rejects with \<open>ValueError\<close> an empty list of labels and a
  list of labels none of which occurs in \<open>y_true\<close>.\<close>

definition confusion_matrix ::
  "string list \<Rightarrow> string list \<Rightarrow> string list \<Rightarrow> error + nat list list" where
  "confusion_matrix y_true y_pred labels =
     (case check_targets y_true y_pred of
        Inl e \<Rightarrow> Inl e
      | Inr _ \<Rightarrow>
          if labels = [] \<or> filter (\<lambda>l. l \<in> set y_true) labels = [] then Inl ValueError
          else Inr (map (\<lambda>t. map (\<lambda>p. length (filter (\<lambda>(a, b). a = t \<and> b = p)
                                                   (zip y_true y_pred))) labels) labels))"

text \<open>Indexing a sequence raises \<open>IndexError\<close> outside its range.\<close>

definition index :: "'a list \<Rightarrow> nat \<Rightarrow> error + 'a" where
  "index xs i = (if i < length xs then Inr (xs ! i) else Inl IndexError)"

text \<open>The loop of \<open>precision_recall_f1\<close> over \<open>range(0, len(classlist))\<close>: the entry of class
  \<open>classlist[i]\<close> is the dictionary of its three scores.\<close>

fun metrics_loop ::
  "string list \<Rightarrow> real list \<Rightarrow> real list \<Rightarrow> real list \<Rightarrow> nat list \<Rightarrow>
     (string \<rightharpoonup> (string \<rightharpoonup> real)) \<Rightarrow> error + (string \<rightharpoonup> (string \<rightharpoonup> real))" where
  "metrics_loop classlist precision recall f1 [] metrics = Inr metrics"
| "metrics_loop classlist precision recall f1 (i # rest) metrics =
     (case index classlist i of Inl e \<Rightarrow> Inl e | Inr c \<Rightarrow>
     (case index precision i of Inl e \<Rightarrow> Inl e | Inr p \<Rightarrow>
     (case index recall i of Inl e \<Rightarrow> Inl e | Inr r \<Rightarrow>
     (case index f1 i of Inl e \<Rightarrow> Inl e | Inr f \<Rightarrow>
        metrics_loop classlist precision recall f1 rest
          (metrics(c \<mapsto> dict [(''precision'', p), (''recall'', r), (''f1'', f)]))))))"

definition precision_recall_f1 ::
  "string list \<Rightarrow> string list \<Rightarrow> string list \<Rightarrow> error + (string \<rightharpoonup> (string \<rightharpoonup> real))" where
  "precision_recall_f1 Y_pred Y_test classlist =
     (case precision_score Y_test Y_pred classlist of Inl e \<Rightarrow> Inl e | Inr precision \<Rightarrow>
     (case recall_score Y_test Y_pred classlist of Inl e \<Rightarrow> Inl e | Inr recall \<Rightarrow>
     (case f1_score Y_test Y_pred classlist of Inl e \<Rightarrow> Inl e | Inr f1 \<Rightarrow>
        metrics_loop classlist precision recall f1 [0..<length classlist] Map.empty)))"

text \<open>\<open>micro_macro_weighted\<close>: nine scores, computed in the order of the assignments and
  stored under their keys; the first call that fails ends the function.\<close>

definition micro_macro_weighted :: "string list \<Rightarrow> string list \<Rightarrow> error + (string \<rightharpoonup> real)" where
  "micro_macro_weighted Y_pred Y_true =
     (case collect (\<lambda>(key, score). case score of Inl e \<Rightarrow> Inl e | Inr v \<Rightarrow> Inr (key, v))
        [(''micro_precision'', precision_score_average Y_true Y_pred Micro),
         (''macro_precision'', precision_score_average Y_true Y_pred Macro),
         (''weighted_precision'', precision_score_average Y_true Y_pred Weighted),
         (''micro_recall'', recall_score_average Y_true Y_pred Micro),
         (''macro_recall'', recall_score_average Y_true Y_pred Macro),
         (''weighted_recall'', recall_score_average Y_true Y_pred Weighted),
         (''micro_f1'', f1_score_average Y_true Y_pred Micro),
         (''macro_f1'', f1_score_average Y_true Y_pred Macro),
         (''weighted_f1'', f1_score_average Y_true Y_pred Weighted)]
      of Inl e \<Rightarrow> Inl e
       | Inr results \<Rightarrow> Inr (dict results))"

text \<open>\<open>calculatePerformanceMetrics\<close> returns nothing and writes what it computed to the log.
  The model returns the five computed values as a record, in the order in which lines 86 to
  90 compute them; a call that raises ends the function before anything is logged. The
  argument \<open>dataset_type\<close> only labels the log lines.\<close>

record report =
  num_incorrect :: int
  accuracy :: real
  metrics :: "string \<rightharpoonup> (string \<rightharpoonup> real)"
  micro_macro_weighted_scores :: "string \<rightharpoonup> real"
  cf_matrix :: "nat list list"

text \<open>The local list \<open>classlist\<close> of \<open>calculatePerformanceMetrics\<close>.\<close>

definition classlist :: "string list" where
  "classlist = [''description'', ''job_title'', ''education'', ''others'', ''skills'']"

definition calculatePerformanceMetrics ::
  "string list \<Rightarrow> string list \<Rightarrow> string \<Rightarrow> error + report" where
  "calculatePerformanceMetrics Y_pred Y_true dataset_type =
     (if length Y_pred \<noteq> length Y_true then Inl AssertionError
      else
        (case accuracy_score_count Y_true Y_pred of Inl e \<Rightarrow> Inl e | Inr n \<Rightarrow>
        (case accuracy_score Y_true Y_pred of Inl e \<Rightarrow> Inl e | Inr a \<Rightarrow>
        (case precision_recall_f1 Y_pred Y_true classlist of Inl e \<Rightarrow> Inl e | Inr m \<Rightarrow>
        (case micro_macro_weighted Y_pred Y_true of Inl e \<Rightarrow> Inl e | Inr s \<Rightarrow>
        (case confusion_matrix Y_true Y_pred classlist of Inl e \<Rightarrow> Inl e | Inr cf \<Rightarrow>
           Inr \<lparr>num_incorrect = int (length Y_true) - int n, accuracy = a, metrics = m,
                micro_macro_weighted_scores = s, cf_matrix = cf\<rparr>))))))"

text \<open>A one-hot row: zeros with a one at the class index. It names the rows that
  \<open>str2onehot\<close> builds in the lemmas below.\<close>

definition onehot_row :: "nat \<Rightarrow> real list" where
  "onehot_row k = (replicate 5 0)[k := 1]"

text \<open>The three scores of a class as plain numbers. They name the values of the scoring
  functions in the lemmas below.\<close>

definition precision_of :: "string list \<Rightarrow> string list \<Rightarrow> string \<Rightarrow> real" where
  "precision_of y_true y_pred c =
     (if predicted_positives c y_pred = 0 then 0
      else real (true_positives c y_true y_pred) / real (predicted_positives c y_pred))"

definition recall_of :: "string list \<Rightarrow> string list \<Rightarrow> string \<Rightarrow> real" where
  "recall_of y_true y_pred c =
     (if actual_positives c y_true = 0 then 0
      else real (true_positives c y_true y_pred) / real (actual_positives c y_true))"

definition f1_of :: "string list \<Rightarrow> string list \<Rightarrow> string \<Rightarrow> real" where
  "f1_of y_true y_pred c =
     (if precision_of y_true y_pred c + recall_of y_true y_pred c = 0 then 0
      else 2 * precision_of y_true y_pred c * recall_of y_true y_pred c
             / (precision_of y_true y_pred c + recall_of y_true y_pred c))"

section \<open>The fixed mapping\<close>

lemma CLASS_LABELS_eq:
  "CLASS_LABELS = {''others'', ''description'', ''skills'', ''job_title'', ''education''}"
  by (simp add: CLASS_LABELS_def ENC_LIST_def)

lemma length_ENC_LIST: "length ENC_LIST = 5"
  by (simp add: ENC_LIST_def)

lemma fwd_dict: "dict ENC_LIST =
  [''others'' \<mapsto> 0, ''description'' \<mapsto> 1, ''skills'' \<mapsto> 2, ''job_title'' \<mapsto> 3, ''education'' \<mapsto> 4]"
  by (simp add: dict_def ENC_LIST_def)

lemma inv_dict: "dict (map (\<lambda>i. (snd i, fst i)) ENC_LIST) =
  [0 \<mapsto> ''others'', 1 \<mapsto> ''description'', 2 \<mapsto> ''skills'', 3 \<mapsto> ''job_title'', 4 \<mapsto> ''education'']"
  by (simp add: dict_def ENC_LIST_def)

lemma fwd_dict_None: "dict ENC_LIST y = None \<longleftrightarrow> y \<notin> CLASS_LABELS"
  by (simp add: fwd_dict CLASS_LABELS_eq)

lemma fwd_dict_bound: "dict ENC_LIST y = Some k \<Longrightarrow> k < 5"
  by (simp add: fwd_dict split: if_splits)

lemma fwd_dict_ENC_LIST: "dict ENC_LIST y = Some k \<longleftrightarrow> (y, k) \<in> set ENC_LIST"
  by (simp add: fwd_dict) (simp add: ENC_LIST_def; argo)

lemma fwd_inv:
  "dict ENC_LIST y = Some k \<Longrightarrow> dict (map (\<lambda>i. (snd i, fst i)) ENC_LIST) k = Some y"
  by (simp add: fwd_dict inv_dict split: if_splits)

lemma inv_fwd:
  assumes "k < 5"
  shows "\<exists>y. dict (map (\<lambda>i. (snd i, fst i)) ENC_LIST) k = Some y \<and> dict ENC_LIST y = Some k"
proof -
  from assms consider "k = 0" | "k = 1" | "k = 2" | "k = 3" | "k = 4" by linarith
  then show ?thesis by cases (simp_all add: fwd_dict inv_dict)
qed

lemma inv_dict_Some: "k < 5 \<Longrightarrow> dict (map (\<lambda>i. (snd i, fst i)) ENC_LIST) k \<noteq> None"
  using inv_fwd [of k] by auto

section \<open>The first maximum of a row\<close>

text \<open>The scan is described by what it has seen: \<open>ys\<close> is the part of the row already
  read, \<open>b\<close> the position of its first maximum and \<open>v\<close> that maximum.\<close>

lemma argmax_scan_spec:
  assumes "i = length ys" "b < i" "v = ys ! b" "\<forall>j<i. ys ! j \<le> v" "\<forall>j<b. ys ! j < v"
  shows "argmax_scan xs i b v < length (ys @ xs) \<and>
         (\<forall>j<length (ys @ xs). (ys @ xs) ! j \<le> (ys @ xs) ! argmax_scan xs i b v) \<and>
         (\<forall>j<argmax_scan xs i b v. (ys @ xs) ! j < (ys @ xs) ! argmax_scan xs i b v)"
  using assms
proof (induction xs arbitrary: ys i b v)
  case Nil
  then show ?case by simp
next
  case (Cons x xs)
  show ?case
  proof (cases "x > v")
    case True
    have "argmax_scan xs (Suc i) i x < length ((ys @ [x]) @ xs) \<and>
         (\<forall>j<length ((ys @ [x]) @ xs).
            ((ys @ [x]) @ xs) ! j \<le> ((ys @ [x]) @ xs) ! argmax_scan xs (Suc i) i x) \<and>
         (\<forall>j<argmax_scan xs (Suc i) i x.
            ((ys @ [x]) @ xs) ! j < ((ys @ [x]) @ xs) ! argmax_scan xs (Suc i) i x)"
    proof (rule Cons.IH)
      show "Suc i = length (ys @ [x])" using Cons.prems by simp
      show "i < Suc i" by simp
      show "x = (ys @ [x]) ! i" using Cons.prems by simp
      show "\<forall>j<Suc i. (ys @ [x]) ! j \<le> x"
        using Cons.prems True by (auto simp: nth_append less_Suc_eq intro: less_imp_le order_trans)
      show "\<forall>j<i. (ys @ [x]) ! j < x"
        using Cons.prems True by (auto simp: nth_append intro: le_less_trans)
    qed
    with True show ?thesis by simp
  next
    case False
    have "argmax_scan xs (Suc i) b v < length ((ys @ [x]) @ xs) \<and>
         (\<forall>j<length ((ys @ [x]) @ xs).
            ((ys @ [x]) @ xs) ! j \<le> ((ys @ [x]) @ xs) ! argmax_scan xs (Suc i) b v) \<and>
         (\<forall>j<argmax_scan xs (Suc i) b v.
            ((ys @ [x]) @ xs) ! j < ((ys @ [x]) @ xs) ! argmax_scan xs (Suc i) b v)"
    proof (rule Cons.IH)
      show "Suc i = length (ys @ [x])" using Cons.prems by simp
      show "b < Suc i" using Cons.prems by simp
      show "v = (ys @ [x]) ! b" using Cons.prems by (simp add: nth_append)
      show "\<forall>j<Suc i. (ys @ [x]) ! j \<le> v"
        using Cons.prems False by (auto simp: nth_append less_Suc_eq)
      show "\<forall>j<b. (ys @ [x]) ! j < v"
        using Cons.prems by (auto simp: nth_append)
    qed
    with False show ?thesis by simp
  qed
qed

lemma argmax_row_spec:
  assumes "row \<noteq> []"
  shows "\<exists>k. argmax_row row = Inr k \<and> k < length row \<and>
             (\<forall>j<length row. row ! j \<le> row ! k) \<and> (\<forall>j<k. row ! j < row ! k)"
proof -
  from assms obtain x xs where row: "row = x # xs" by (cases row) auto
  have "argmax_scan xs 1 0 x < length ([x] @ xs) \<and>
         (\<forall>j<length ([x] @ xs). ([x] @ xs) ! j \<le> ([x] @ xs) ! argmax_scan xs 1 0 x) \<and>
         (\<forall>j<argmax_scan xs 1 0 x. ([x] @ xs) ! j < ([x] @ xs) ! argmax_scan xs 1 0 x)"
    by (rule argmax_scan_spec) simp_all
  then show ?thesis by (simp add: row argmax_row_def)
qed

lemma np_argmax_axis1_ok:
  "\<forall>row \<in> set P. row \<noteq> [] \<Longrightarrow>
   \<exists>idx_list. np_argmax_axis1 P = Inr idx_list \<and> length idx_list = length P \<and>
     (\<forall>i<length P. argmax_row (P ! i) = Inr (idx_list ! i))"
proof (induction P)
  case Nil
  then show ?case by simp
next
  case (Cons row P)
  from Cons.prems have "row \<noteq> []" by simp
  then obtain k where k: "argmax_row row = Inr k"
    using argmax_row_spec [of row] by blast
  from Cons obtain idx_list where il: "np_argmax_axis1 P = Inr idx_list"
    "length idx_list = length P" "\<forall>i<length P. argmax_row (P ! i) = Inr (idx_list ! i)"
    by auto
  have "\<forall>i<length (row # P). argmax_row ((row # P) ! i) = Inr ((k # idx_list) ! i)"
    using k il(3) by (simp add: nth_Cons split: nat.split)
  then show ?case using k il(1,2) by simp
qed

section \<open>The loops of the codec\<close>

lemma onehot2str_loop_ok:
  "\<forall>i \<in> set idx_list. d i \<noteq> None \<Longrightarrow>
   onehot2str_loop d idx_list result_str = Inr (result_str @ map (\<lambda>i. the (d i)) idx_list)"
  by (induction idx_list arbitrary: result_str) (auto simp: getitem_def)

lemma str2onehot_loop_ok:
  "set Y \<subseteq> CLASS_LABELS \<Longrightarrow>
   str2onehot_loop (dict ENC_LIST) Y new_Y =
     Inr (new_Y @ map (\<lambda>y. [onehot_row (the (dict ENC_LIST y))]) Y)"
proof (induction Y arbitrary: new_Y)
  case Nil
  then show ?case by simp
next
  case (Cons y Y)
  from Cons.prems have "y \<in> CLASS_LABELS" by simp
  then obtain k where k: "dict ENC_LIST y = Some k"
    using fwd_dict_None [of y] by (cases "dict ENC_LIST y") simp_all
  then have "k < 5" by (rule fwd_dict_bound)
  moreover from Cons.prems have "set Y \<subseteq> CLASS_LABELS" by simp
  ultimately show ?case
    using k by (simp add: Cons.IH getitem_def length_ENC_LIST onehot_row_def Let_def)
qed

lemma str2onehot_loop_KeyError:
  "\<not> set Y \<subseteq> CLASS_LABELS \<Longrightarrow> str2onehot_loop (dict ENC_LIST) Y new_Y = Inl KeyError"
proof (induction Y arbitrary: new_Y)
  case Nil
  then show ?case by simp
next
  case (Cons y Y)
  show ?case
  proof (cases "dict ENC_LIST y")
    case None
    then show ?thesis by (simp add: getitem_def)
  next
    case (Some k)
    then have "k < 5" by (rule fwd_dict_bound)
    moreover from Some have "y \<in> CLASS_LABELS"
      using fwd_dict_None [of y] by simp
    with Cons.prems have "\<not> set Y \<subseteq> CLASS_LABELS" by simp
    ultimately show ?thesis
      using Some by (simp add: Cons.IH getitem_def length_ENC_LIST)
  qed
qed

lemma length_onehot_row: "length (onehot_row k) = 5"
  by (simp add: onehot_row_def)

lemma np_vstack_rows:
  assumes "Y \<noteq> []"
  shows "np_vstack (map (\<lambda>y. [onehot_row (f y)]) Y) = Inr (map (\<lambda>y. onehot_row (f y)) Y)"
proof -
  have "concat (map (\<lambda>y. [onehot_row (f y)]) Y) = map (\<lambda>y. onehot_row (f y)) Y"
    by (induction Y) simp_all
  then show ?thesis
    using assms by (simp add: np_vstack_def Let_def length_onehot_row hd_map list_all_iff)
qed

lemma str2onehot_ok:
  assumes "Y \<noteq> []" "set Y \<subseteq> CLASS_LABELS"
  shows "str2onehot Y = Inr (map (\<lambda>y. onehot_row (the (dict ENC_LIST y))) Y)"
  using assms by (simp add: str2onehot_def str2onehot_loop_ok np_vstack_rows)

lemma str2onehot_KeyError:
  "\<not> set Y \<subseteq> CLASS_LABELS \<Longrightarrow> str2onehot Y = Inl KeyError"
  by (simp add: str2onehot_def str2onehot_loop_KeyError)

lemma str2onehot_Nil: "str2onehot [] = Inl ValueError"
  by (simp add: str2onehot_def np_vstack_def)

lemma onehot_row_props:
  assumes "k < 5"
  shows "onehot_row k ! k = 1" "\<forall>j<5. j \<noteq> k \<longrightarrow> onehot_row k ! j = 0"
        "sum_list (onehot_row k) = 1" "argmax_row (onehot_row k) = Inr k"
proof -
  from assms consider "k = 0" | "k = 1" | "k = 2" | "k = 3" | "k = 4" by linarith
  note ks = this
  show "onehot_row k ! k = 1" using assms by (simp add: onehot_row_def)
  show "\<forall>j<5. j \<noteq> k \<longrightarrow> onehot_row k ! j = 0" by (simp add: onehot_row_def)
  from ks show "sum_list (onehot_row k) = 1"
    by cases (simp_all add: onehot_row_def numeral_eq_Suc)
  from ks show "argmax_row (onehot_row k) = Inr k"
    by cases (simp_all add: onehot_row_def numeral_eq_Suc argmax_row_def)
qed

section \<open>The label codec\<close>

text \<open>Claim C1. Round trip: for every class label \<open>L\<close> of the fixed set (the five keys of
  \<open>ENC_LIST\<close>), encoding the one-element sequence \<open>[L]\<close> with \<open>str2onehot\<close> succeeds, and
  decoding the result with \<open>onehot2str\<close> gives back \<open>[L]\<close>, so its first entry is \<open>L\<close>.\<close>

theorem C1_roundtrip:
  assumes "L \<in> CLASS_LABELS"
  shows "\<exists>M. str2onehot [L] = Inr M \<and> onehot2str M = Inr [L]"
proof -
  from assms obtain k where k: "dict ENC_LIST L = Some k"
    using fwd_dict_None [of L] by (cases "dict ENC_LIST L") simp_all
  then have k5: "k < 5" by (rule fwd_dict_bound)
  from assms have enc: "str2onehot [L] = Inr [onehot_row k]"
    using k by (simp add: str2onehot_ok)
  have "onehot2str [onehot_row k] = Inr [L]"
    using onehot_row_props(4) [OF k5] fwd_inv [OF k]
    by (simp add: onehot2str_def getitem_def)
  with enc show ?thesis by simp
qed

theorem C1_roundtrip_witness:
  "''job_title'' \<in> CLASS_LABELS \<and>
   str2onehot [''job_title''] = Inr [[0, 0, 0, 1, 0]] \<and>
   onehot2str [[0, 0, 0, 1, 0]] = Inr [''job_title'']"
proof -
  have h: "''job_title'' \<in> CLASS_LABELS" by (simp add: CLASS_LABELS_eq)
  have e: "str2onehot [''job_title''] = Inr [[0, 0, 0, 1, 0]]"
    by (simp add: str2onehot_ok h fwd_dict onehot_row_def numeral_eq_Suc)
  from C1_roundtrip [OF h] e h show ?thesis by auto
qed

text \<open>Claim C5, as the code has it. \<open>str2onehot\<close> fails with \<open>KeyError\<close> (the unknown-label
  error) if and only if some label of the input is outside the fixed set of five class labels,
  and it succeeds on every non-empty input whose labels are all in the set.\<close>

theorem C5_unknown_label:
  "(str2onehot Y = Inl KeyError \<longleftrightarrow> \<not> set Y \<subseteq> CLASS_LABELS) \<and>
   (Y \<noteq> [] \<and> set Y \<subseteq> CLASS_LABELS \<longrightarrow> (\<exists>M. str2onehot Y = Inr M))"
proof (cases "set Y \<subseteq> CLASS_LABELS")
  case False
  then show ?thesis by (simp add: str2onehot_KeyError)
next
  case True
  show ?thesis
  proof (cases "Y = []")
    case True
    then show ?thesis by (simp add: str2onehot_Nil)
  next
    case False
    with True show ?thesis by (simp add: str2onehot_ok)
  qed
qed

theorem C5_unknown_label_witness:
  "str2onehot [''skills'', ''hobbies''] = Inl KeyError \<and>
   str2onehot [''skills'', ''others''] = Inr [[0, 0, 1, 0, 0], [1, 0, 0, 0, 0]]"
proof -
  have out: "\<not> set [''skills'', ''hobbies''] \<subseteq> CLASS_LABELS" by (simp add: CLASS_LABELS_eq)
  have inside: "set [''skills'', ''others''] \<subseteq> CLASS_LABELS" by (simp add: CLASS_LABELS_eq)
  have e: "str2onehot [''skills'', ''others''] = Inr [[0, 0, 1, 0, 0], [1, 0, 0, 0, 0]]"
    using inside by (simp add: str2onehot_ok fwd_dict onehot_row_def numeral_eq_Suc)
  from C5_unknown_label [of "[''skills'', ''hobbies'']"] out e show ?thesis by simp
qed

text \<open>Claim C5 as it is worded also promises success on every input whose labels are all in
  the set. The empty sequence is such an input, and there \<open>np.vstack\<close> is handed an empty list
  of blocks and raises \<open>ValueError\<close>.\<close>

theorem C5_empty_input_counterexample:
  "set ([] :: string list) \<subseteq> CLASS_LABELS \<and> str2onehot [] = Inl ValueError"
  by (simp add: str2onehot_Nil)

text \<open>Claim C6. For every non-empty sequence \<open>Y\<close> of labels of the fixed set, and so for
  every \<open>[L]\<close> with \<open>L\<close> in the set, \<open>str2onehot\<close> produces one row per input label; every row
  has exactly 5 columns, holds \<open>1.0\<close> at the class index that \<open>ENC_LIST\<close> assigns to its label
  and \<open>0.0\<close> everywhere else, and sums to exactly \<open>1.0\<close>.\<close>

theorem C6_onehot_rows:
  assumes "Y \<noteq> []" and "set Y \<subseteq> CLASS_LABELS"
  shows "\<exists>M. str2onehot Y = Inr M \<and> length M = length Y \<and>
     (\<forall>i<length Y. length (M ! i) = 5 \<and> sum_list (M ! i) = 1 \<and>
        (\<exists>k<5. (Y ! i, k) \<in> set ENC_LIST \<and> M ! i ! k = 1 \<and>
           (\<forall>j<5. j \<noteq> k \<longrightarrow> M ! i ! j = 0)))"
proof -
  let ?M = "map (\<lambda>y. onehot_row (the (dict ENC_LIST y))) Y"
  have "length (?M ! i) = 5 \<and> sum_list (?M ! i) = 1 \<and>
        (\<exists>k<5. (Y ! i, k) \<in> set ENC_LIST \<and> ?M ! i ! k = 1 \<and>
           (\<forall>j<5. j \<noteq> k \<longrightarrow> ?M ! i ! j = 0))" if i: "i < length Y" for i
  proof -
    from i assms(2) have "Y ! i \<in> CLASS_LABELS" by (auto simp: subset_iff)
    then obtain k where k: "dict ENC_LIST (Y ! i) = Some k"
      using fwd_dict_None [of "Y ! i"] by (cases "dict ENC_LIST (Y ! i)") simp_all
    then have k5: "k < 5" by (rule fwd_dict_bound)
    have row: "?M ! i = onehot_row k" using i k by simp
    from k have "(Y ! i, k) \<in> set ENC_LIST" by (simp add: fwd_dict_ENC_LIST)
    with k5 onehot_row_props(1-3) [OF k5] show ?thesis
      unfolding row by (auto simp: length_onehot_row)
  qed
  then show ?thesis using assms by (simp add: str2onehot_ok)
qed

theorem C6_onehot_rows_witness:
  "str2onehot [''education''] = Inr [[0, 0, 0, 0, 1]] \<and>
   (''education'', 4) \<in> set ENC_LIST \<and> sum_list [0, 0, 0, 0, 1 :: real] = 1"
proof -
  have h: "set [''education''] \<subseteq> CLASS_LABELS" by (simp add: CLASS_LABELS_eq)
  have e: "str2onehot [''education''] = Inr [[0, 0, 0, 0, 1]]"
    using h by (simp add: str2onehot_ok fwd_dict onehot_row_def numeral_eq_Suc)
  have m: "(''education'', 4) \<in> set ENC_LIST" by (simp add: ENC_LIST_def)
  from C6_onehot_rows [OF _ h] e m show ?thesis by simp
qed

text \<open>Claim C7. For every probability matrix \<open>P\<close> (every row non-empty, with at most the five
  columns of the class indices), \<open>onehot2str\<close> returns exactly one label per row, and the label
  of a row is the one whose class index in \<open>ENC_LIST\<close> holds the maximum of the row; among
  several maxima the lowest index is taken.\<close>

theorem C7_decode_argmax:
  assumes "\<forall>row \<in> set P. row \<noteq> [] \<and> length row \<le> 5"
  shows "\<exists>labels. onehot2str P = Inr labels \<and> length labels = length P \<and>
     (\<forall>i<length P. \<exists>k<length (P ! i). (labels ! i, k) \<in> set ENC_LIST \<and>
        (\<forall>j<length (P ! i). P ! i ! j \<le> P ! i ! k) \<and> (\<forall>j<k. P ! i ! j < P ! i ! k))"
proof -
  let ?d = "dict (map (\<lambda>i. (snd i, fst i)) ENC_LIST)"
  from assms have ne: "\<forall>row \<in> set P. row \<noteq> []" by simp
  then obtain idx_list where il: "np_argmax_axis1 P = Inr idx_list"
    "length idx_list = length P" "\<forall>i<length P. argmax_row (P ! i) = Inr (idx_list ! i)"
    using np_argmax_axis1_ok [of P] by blast
  have spec: "idx_list ! i < length (P ! i) \<and>
      (\<forall>j<length (P ! i). P ! i ! j \<le> P ! i ! (idx_list ! i)) \<and>
      (\<forall>j<idx_list ! i. P ! i ! j < P ! i ! (idx_list ! i))" if "i < length P" for i
  proof -
    from that ne have "P ! i \<noteq> []" by simp
    from argmax_row_spec [OF this] il(3) that show ?thesis by auto
  qed
  have bound: "idx_list ! i < 5" if "i < length P" for i
  proof -
    from that assms have "length (P ! i) \<le> 5" by simp
    with spec [OF that] show ?thesis by simp
  qed
  have "\<forall>k \<in> set idx_list. ?d k \<noteq> None"
  proof
    fix k assume "k \<in> set idx_list"
    then obtain i where "i < length idx_list" "idx_list ! i = k"
      by (auto simp: in_set_conv_nth)
    with bound [of i] il(2) show "?d k \<noteq> None" by (simp add: inv_dict_Some)
  qed
  then have res: "onehot2str P = Inr (map (\<lambda>i. the (?d i)) idx_list)"
    using il(1) by (simp add: onehot2str_def onehot2str_loop_ok)
  have "\<exists>k<length (P ! i). (map (\<lambda>i. the (?d i)) idx_list ! i, k) \<in> set ENC_LIST \<and>
        (\<forall>j<length (P ! i). P ! i ! j \<le> P ! i ! k) \<and> (\<forall>j<k. P ! i ! j < P ! i ! k)"
    if "i < length P" for i
  proof -
    from inv_fwd [OF bound [OF that]] obtain y where
      y: "?d (idx_list ! i) = Some y" "dict ENC_LIST y = Some (idx_list ! i)" by blast
    then have "(map (\<lambda>i. the (?d i)) idx_list ! i, idx_list ! i) \<in> set ENC_LIST"
      using that il(2) by (simp add: fwd_dict_ENC_LIST)
    with spec [OF that] show ?thesis by blast
  qed
  with res il(2) show ?thesis by simp
qed

theorem C7_decode_argmax_witness:
  "onehot2str [[0.1, 0.4, 0.4, 0.05, 0.05], [0, 0, 0, 0, 1]] = Inr [''description'', ''education'']"
proof -
  have e: "onehot2str [[0.1, 0.4, 0.4, 0.05, 0.05], [0, 0, 0, 0, 1]]
      = Inr [''description'', ''education'']"
    by (simp add: onehot2str_def argmax_row_def inv_dict getitem_def)
  from C7_decode_argmax [of "[[0.1, 0.4, 0.4, 0.05, 0.05], [0, 0, 0, 0, 1]]"] e
  show ?thesis by simp
qed

section \<open>The confidence annotator\<close>

lemma py_max_Max:
  assumes "xs \<noteq> []"
  shows "py_max xs = Inr (Max (set xs))"
proof -
  have scan: "foldl (\<lambda>m y. if y > m then y else m) x rest = Max (set (x # rest))"
    for x :: real and rest
  proof (induction rest arbitrary: x)
    case Nil
    then show ?case by simp
  next
    case (Cons y rest)
    have "(if y > x then y else x) = max x y" by (simp add: max_def)
    then have "foldl (\<lambda>m y. if y > m then y else m) x (y # rest) = Max (set (max x y # rest))"
      using Cons.IH [of "max x y"] by simp
    also have "\<dots> = Max (set (x # y # rest))"
      by (cases "rest = []") (simp_all add: max.assoc)
    finally show ?case .
  qed
  from assms obtain x rest where "xs = x # rest" by (cases xs) auto
  then show ?thesis using scan [of x rest] by (simp add: py_max_def)
qed

lemma confidence_loop_ok:
  "\<forall>probs \<in> set pred. probs \<noteq> [] \<Longrightarrow>
   confidence_loop pred confidence_list =
     Inr (confidence_list @
          map (\<lambda>probs. PyStr (if Max (set probs) > 0.65 then ''YES'' else ''NO'')) pred)"
  by (induction pred arbitrary: confidence_list)
     (simp_all add: py_max_Max CONFIDENCE_THRESHOLD_def)

lemma confidence_high:
  "calculatePredictionConfidence [[0.7, 0.1, 0.1, 0.05, 0.05]] = Inr [PyStr ''YES'']"
  by (simp add: calculatePredictionConfidence_def py_max_def CONFIDENCE_THRESHOLD_def)

lemma confidence_low:
  "calculatePredictionConfidence [[0.3, 0.3, 0.2, 0.1, 0.1]] = Inr [PyStr ''NO'']"
  by (simp add: calculatePredictionConfidence_def py_max_def CONFIDENCE_THRESHOLD_def)

text \<open>Claim C3, as the code has it. For a probability matrix (every row non-empty),
  \<open>calculatePredictionConfidence\<close> returns one flag per row, in the order of the rows; the
  flag is the string \<open>"YES"\<close> if and only if the maximum of the row is strictly greater than
  0.65, and the string \<open>"NO"\<close> otherwise. The row \<open>[0.7, 0.1, 0.1, 0.05, 0.05]\<close> is flagged
  \<open>"YES"\<close> and the row \<open>[0.3, 0.3, 0.2, 0.1, 0.1]\<close> is flagged \<open>"NO"\<close>.\<close>

theorem C3_confidence_flags:
  assumes "\<forall>probs \<in> set pred. probs \<noteq> []"
  shows "calculatePredictionConfidence pred =
           Inr (map (\<lambda>probs. PyStr (if Max (set probs) > 0.65 then ''YES'' else ''NO'')) pred) \<and>
         calculatePredictionConfidence [[0.7, 0.1, 0.1, 0.05, 0.05]] = Inr [PyStr ''YES''] \<and>
         calculatePredictionConfidence [[0.3, 0.3, 0.2, 0.1, 0.1]] = Inr [PyStr ''NO'']"
proof (intro conjI)
  show "calculatePredictionConfidence pred =
      Inr (map (\<lambda>probs. PyStr (if Max (set probs) > 0.65 then ''YES'' else ''NO'')) pred)"
    using assms by (simp add: calculatePredictionConfidence_def confidence_loop_ok)
  show "calculatePredictionConfidence [[0.7, 0.1, 0.1, 0.05, 0.05]] = Inr [PyStr ''YES'']"
    by (rule confidence_high)
  show "calculatePredictionConfidence [[0.3, 0.3, 0.2, 0.1, 0.1]] = Inr [PyStr ''NO'']"
    by (rule confidence_low)
qed

theorem C3_confidence_flags_witness:
  "calculatePredictionConfidence [[0.7, 0.1, 0.1, 0.05, 0.05], [0.3, 0.3, 0.2, 0.1, 0.1]]
     = Inr [PyStr ''YES'', PyStr ''NO'']"
proof -
  have e: "calculatePredictionConfidence [[0.7, 0.1, 0.1, 0.05, 0.05], [0.3, 0.3, 0.2, 0.1, 0.1]]
     = Inr [PyStr ''YES'', PyStr ''NO'']"
    by (simp add: calculatePredictionConfidence_def py_max_def CONFIDENCE_THRESHOLD_def)
  from C3_confidence_flags [of "[[0.7, 0.1, 0.1, 0.05, 0.05], [0.3, 0.3, 0.2, 0.1, 0.1]]"] e
  show ?thesis by simp
qed

text \<open>Claim C3 as it is worded has the annotator return booleans. The flag of the row
  \<open>[0.7, 0.1, 0.1, 0.05, 0.05]\<close> is the string \<open>"YES"\<close>, not the boolean \<open>True\<close>.\<close>

theorem C3_boolean_counterexample:
  "calculatePredictionConfidence [[0.7, 0.1, 0.1, 0.05, 0.05]] = Inr [PyStr ''YES''] \<and>
   calculatePredictionConfidence [[0.7, 0.1, 0.1, 0.05, 0.05]] \<noteq> Inr [PyBool True]"
  using confidence_high by simp

text \<open>Claim C10. For every probability matrix (every row non-empty),
  \<open>calculatePredictionConfidence\<close> returns a list of the same length as the input whose
  elements are the strings \<open>"YES"\<close> and \<open>"NO"\<close>, not booleans: \<open>"YES"\<close> exactly when the maximum
  of the row strictly exceeds 0.65, and \<open>"NO"\<close> otherwise.\<close>

theorem C10_yes_no_strings:
  assumes "\<forall>probs \<in> set pred. probs \<noteq> []"
  shows "\<exists>flags. calculatePredictionConfidence pred = Inr flags \<and>
     length flags = length pred \<and>
     (\<forall>i<length pred.
        (Max (set (pred ! i)) > 0.65 \<longrightarrow> flags ! i = PyStr ''YES'') \<and>
        (\<not> Max (set (pred ! i)) > 0.65 \<longrightarrow> flags ! i = PyStr ''NO''))"
  using assms by (simp add: calculatePredictionConfidence_def confidence_loop_ok)

theorem C10_yes_no_strings_witness:
  "calculatePredictionConfidence [[0.65, 0.35, 0, 0, 0], [0.1, 0.1, 0.1, 0.66, 0.04]]
     = Inr [PyStr ''NO'', PyStr ''YES'']"
proof -
  have e: "calculatePredictionConfidence [[0.65, 0.35, 0, 0, 0], [0.1, 0.1, 0.1, 0.66, 0.04]]
     = Inr [PyStr ''NO'', PyStr ''YES'']"
    by (simp add: calculatePredictionConfidence_def py_max_def CONFIDENCE_THRESHOLD_def)
  from C10_yes_no_strings [of "[[0.65, 0.35, 0, 0, 0], [0.1, 0.1, 0.1, 0.66, 0.04]]"] e
  show ?thesis by simp
qed

section \<open>The multi-bucket decoder\<close>

lemma classes_loop_ok:
  "\<forall>(i, p) \<in> set ps. d i \<noteq> None \<Longrightarrow>
   classes_loop d thr ps classes =
     Inr (classes @ concat (map (\<lambda>s. s @ '', '')
            (map (\<lambda>(i, p). the (d i)) (filter (\<lambda>(i, p). thr \<le> p) ps))))"
  by (induction ps arbitrary: classes) (auto simp: getitem_def)

lemma drop_last2_append:
  "2 \<le> length b \<Longrightarrow> drop_last2 (a @ b) = a @ drop_last2 b"
  by (simp add: drop_last2_def)

text \<open>Cutting the last two characters off the separated labels leaves the joined labels;
  with no label at all the slice of the empty string is the empty string.\<close>

lemma drop_last2_sep: "drop_last2 (concat (map (\<lambda>s. s @ '', '') ls)) = comma_join ls"
proof (induction ls rule: comma_join.induct)
  case 1
  then show ?case by (simp add: drop_last2_def)
next
  case (2 s)
  then show ?case by (simp add: drop_last2_def)
next
  case (3 s t ss)
  let ?rest = "concat (map (\<lambda>s. s @ '', '') (t # ss))"
  have len: "2 \<le> length ?rest" by simp
  have "drop_last2 (concat (map (\<lambda>s. s @ '', '') (s # t # ss))) = drop_last2 ((s @ '', '') @ ?rest)"
    by simp
  also have "\<dots> = (s @ '', '') @ drop_last2 ?rest"
    using len by (rule drop_last2_append)
  also have "\<dots> = comma_join (s # t # ss)"
    using "3.IH" by simp
  finally show ?case .
qed

lemma length5:
  assumes "length (prob :: real list) = 5"
  obtains a b c d e where "prob = [a, b, c, d, e]"
  using assms by (auto simp: numeral_eq_Suc length_Suc_conv)

lemma row_labels:
  assumes "length prob = 5"
  shows "map (\<lambda>(i, p). the (dict (map (\<lambda>i. (snd i, fst i)) ENC_LIST) i))
           (filter (\<lambda>(i, p). thr \<le> p) (enumerate 0 prob)) = labels_at_or_above thr prob"
proof -
  from assms obtain a b c d e where prob: "prob = [a, b, c, d, e]" by (rule length5)
  have en: "enumerate 0 prob = [(0, a), (1, b), (2, c), (3, d), (4, e)]"
    unfolding prob by (simp add: enumerate_eq_zip upt_rec)
  show ?thesis
    unfolding en labels_at_or_above_def inv_dict by (simp add: prob ENC_LIST_def)
qed

lemma row_keys:
  assumes "length prob = 5"
  shows "\<forall>(i, p) \<in> set (enumerate 0 prob). dict (map (\<lambda>i. (snd i, fst i)) ENC_LIST) i \<noteq> None"
proof -
  have "i < 5" if "(i, p) \<in> set (enumerate 0 prob)" for i p
    using that assms by (auto simp: in_set_enumerate_eq)
  then show ?thesis using inv_dict_Some by fastforce
qed

lemma row_string:
  assumes "length prob = 5"
  shows "classes_loop (dict (map (\<lambda>i. (snd i, fst i)) ENC_LIST)) thr (enumerate 0 prob) [] =
           Inr (concat (map (\<lambda>s. s @ '', '') (labels_at_or_above thr prob)))"
  using classes_loop_ok [OF row_keys [OF assms], of thr "[]"] row_labels [OF assms, of thr]
  by simp

lemma prob2str_loop_ok:
  "\<forall>(prob, sen) \<in> set ps. length prob = 5 \<Longrightarrow>
   prob2str_loop (dict (map (\<lambda>i. (snd i, fst i)) ENC_LIST)) thr ps cats final_sens =
     Inr (cats @ map (\<lambda>(prob, sen). comma_join (labels_at_or_above thr prob)) ps,
          final_sens @ map snd ps)"
  by (induction ps arbitrary: cats final_sens) (auto simp: row_string drop_last2_sep)

lemma no_labels:
  assumes "length prob = 5"
  shows "labels_at_or_above thr prob = [] \<longleftrightarrow> (\<forall>p \<in> set prob. p < thr)"
proof -
  from assms obtain a b c d e where prob: "prob = [a, b, c, d, e]" by (rule length5)
  show ?thesis unfolding prob labels_at_or_above_def by (auto simp: ENC_LIST_def)
qed

lemma prob2str_multibucket_thr_ok:
  assumes "\<forall>prob \<in> set probs. length prob = 5" and "length probs \<le> length sens"
  shows "prob2str_multibucket_thr thr probs sens =
           Inr (map (\<lambda>prob. comma_join (labels_at_or_above thr prob)) probs,
                take (length probs) sens)"
proof -
  have "\<forall>(prob, sen) \<in> set (zip probs sens). length prob = 5"
    using assms(1) by (auto dest: set_zip_leftD)
  then have "prob2str_multibucket_thr thr probs sens =
     Inr (map (\<lambda>(prob, sen). comma_join (labels_at_or_above thr prob)) (zip probs sens),
          map snd (zip probs sens))"
    by (simp add: prob2str_multibucket_thr_def prob2str_loop_ok)
  moreover have "map (\<lambda>(prob, sen). comma_join (labels_at_or_above thr prob)) (zip probs sens)
      = map (\<lambda>prob. comma_join (labels_at_or_above thr prob)) (map fst (zip probs sens))"
    by (simp add: comp_def case_prod_beta)
  moreover have "map fst (zip probs sens) = probs"
    using assms(2) by (simp add: map_fst_zip_take)
  moreover have "map snd (zip probs sens) = take (length probs) sens"
    using assms(2) by (simp add: map_snd_zip_take)
  ultimately show ?thesis by simp
qed

text \<open>Claim C2. For every probability matrix (rows of the 5 class probabilities, each paired
  with its input sentence) and every threshold, the multi-bucket decoder produces for each
  row the string of exactly those class labels whose probability is at or above the threshold,
  in class-index order (\<open>ENC_LIST\<close> lists the labels by ascending index), joined by \<open>", "\<close>
  with no trailing separator; a row with no label at or above the threshold produces the empty
  string. \<open>prob2str_multibucket\<close> is the decoder at the configured threshold 0.20.\<close>

theorem C2_multibucket:
  assumes "\<forall>prob \<in> set probs. length prob = 5" and "length probs \<le> length sens"
  shows "prob2str_multibucket_thr thr probs sens =
           Inr (map (\<lambda>prob. comma_join (labels_at_or_above thr prob)) probs,
                take (length probs) sens) \<and>
         prob2str_multibucket probs sens =
           Inr (map (\<lambda>prob. comma_join (labels_at_or_above 0.20 prob)) probs,
                take (length probs) sens) \<and>
         map snd ENC_LIST = [0, 1, 2, 3, 4] \<and>
         (\<forall>prob \<in> set probs.
            (\<forall>p \<in> set prob. p < thr) \<longrightarrow> comma_join (labels_at_or_above thr prob) = [])"
proof (intro conjI ballI impI)
  show "prob2str_multibucket_thr thr probs sens =
      Inr (map (\<lambda>prob. comma_join (labels_at_or_above thr prob)) probs, take (length probs) sens)"
    using assms by (rule prob2str_multibucket_thr_ok)
  show "prob2str_multibucket probs sens =
      Inr (map (\<lambda>prob. comma_join (labels_at_or_above 0.20 prob)) probs, take (length probs) sens)"
    using assms by (simp add: prob2str_multibucket_def PROB_THRESHOLD_def prob2str_multibucket_thr_ok)
  show "map snd ENC_LIST = [0, 1, 2, 3, 4]"
    by (simp add: ENC_LIST_def)
next
  fix prob
  assume "prob \<in> set probs" and below: "\<forall>p \<in> set prob. p < thr"
  with assms(1) have "length prob = 5" by simp
  with below have "labels_at_or_above thr prob = []" by (simp add: no_labels)
  then show "comma_join (labels_at_or_above thr prob) = []" by simp
qed

theorem C2_multibucket_witness:
  "prob2str_multibucket
      [[0.5, 0.1, 0.3, 0.05, 0.05], [0.19, 0.19, 0.19, 0.19, 0.19], [0.2, 0.2, 0.2, 0.2, 0.2]]
      [''first'', ''second'', ''third'']
    = Inr ([''others, skills'', [], ''others, description, skills, job_title, education''],
           [''first'', ''second'', ''third''])"
proof -
  have e: "prob2str_multibucket
      [[0.5, 0.1, 0.3, 0.05, 0.05], [0.19, 0.19, 0.19, 0.19, 0.19], [0.2, 0.2, 0.2, 0.2, 0.2]]
      [''first'', ''second'', ''third'']
    = Inr ([''others, skills'', [], ''others, description, skills, job_title, education''],
           [''first'', ''second'', ''third''])"
    by (simp add: prob2str_multibucket_def prob2str_multibucket_thr_def PROB_THRESHOLD_def
        enumerate_eq_zip upt_rec inv_dict getitem_def drop_last2_def)
  from C2_multibucket [of
      "[[0.5, 0.1, 0.3, 0.05, 0.05], [0.19, 0.19, 0.19, 0.19, 0.19], [0.2, 0.2, 0.2, 0.2, 0.2]]"
      "[''first'', ''second'', ''third'']" "0.20"] e
  show ?thesis by simp
qed

section \<open>The metrics engine\<close>

lemma zero_division_eq: "zero_division n d = Inr (if d = 0 then 0 else n / d)"
  by (simp add: zero_division_def true_divide_def)

lemma class_precision_eq: "class_precision y_true y_pred c = Inr (precision_of y_true y_pred c)"
  by (simp add: class_precision_def precision_of_def zero_division_eq)

lemma class_recall_eq: "class_recall y_true y_pred c = Inr (recall_of y_true y_pred c)"
  by (simp add: class_recall_def recall_of_def zero_division_eq)

lemma class_f1_eq: "class_f1 y_true y_pred c = Inr (f1_of y_true y_pred c)"
  by (simp add: class_f1_def harmonic_mean_def class_precision_eq class_recall_eq f1_of_def
      zero_division_eq)

lemma collect_Inr: "(\<And>x. x \<in> set xs \<Longrightarrow> f x = Inr (g x)) \<Longrightarrow> collect f xs = Inr (map g xs)"
  by (induction xs) simp_all

lemma check_targets_ok:
  "length y_true = length y_pred \<Longrightarrow> y_true \<noteq> [] \<Longrightarrow> check_targets y_true y_pred = Inr ()"
  by (simp add: check_targets_def)

lemma metrics_loop_ok:
  "\<forall>i \<in> set idxs. i < length cl \<Longrightarrow>
   metrics_loop cl (map fp cl) (map fr cl) (map ff cl) idxs m =
     Inr (\<lambda>c. if c \<in> (\<lambda>i. cl ! i) ` set idxs
               then Some (dict [(''precision'', fp c), (''recall'', fr c), (''f1'', ff c)])
               else m c)"
proof (induction idxs arbitrary: m)
  case Nil
  then show ?case by simp
next
  case (Cons i idxs)
  from Cons.prems have i: "i < length cl" and rest: "\<forall>i \<in> set idxs. i < length cl" by simp_all
  show ?case
    using i by (auto simp: Cons.IH [OF rest] index_def)
qed

lemma precision_recall_f1_ok:
  assumes "length Y_pred = length Y_test" and "Y_test \<noteq> []"
  shows "precision_recall_f1 Y_pred Y_test cl =
     Inr (\<lambda>c. if c \<in> set cl
               then Some (dict [(''precision'', precision_of Y_test Y_pred c),
                                (''recall'', recall_of Y_test Y_pred c),
                                (''f1'', f1_of Y_test Y_pred c)])
               else None)"
proof -
  have "(\<lambda>i. cl ! i) ` set [0..<length cl] = set cl"
    by (auto simp: in_set_conv_nth)
  moreover have "check_targets Y_test Y_pred = Inr ()"
    using assms by (simp add: check_targets_ok)
  ultimately show ?thesis
    by (simp add: precision_recall_f1_def precision_score_def recall_score_def f1_score_def
        collect_Inr [where g = "precision_of Y_test Y_pred"]
        collect_Inr [where g = "recall_of Y_test Y_pred"]
        collect_Inr [where g = "f1_of Y_test Y_pred"]
        class_precision_eq class_recall_eq class_f1_eq metrics_loop_ok)
qed

lemma present_labels_nonempty:
  assumes "y_true \<noteq> []"
  shows "present_labels y_true y_pred \<noteq> []"
proof
  assume "present_labels y_true y_pred = []"
  then have "set (present_labels y_true y_pred) = {}" by simp
  then have "set y_true = {}" by (simp add: present_labels_def)
  with assms show False by simp
qed

lemma averaged_ok:
  assumes "labels \<noteq> []" and "\<And>c. per_class c = Inr (g c)"
  shows "\<exists>v. averaged avg (Inr m) per_class y_true labels = Inr v"
proof -
  have c: "collect per_class labels = Inr (map g labels)"
    using assms(2) by (simp add: collect_Inr)
  show ?thesis
  proof (cases avg)
    case Micro
    then show ?thesis by (simp add: averaged_def)
  next
    case Macro
    then show ?thesis using assms(1) by (simp add: averaged_def c true_divide_def)
  next
    case Weighted
    then show ?thesis by (simp add: averaged_def c zero_division_eq)
  qed
qed

lemma score_average_ok:
  assumes "length y_true = length y_pred" and "y_true \<noteq> []"
  shows "\<exists>v. precision_score_average y_true y_pred avg = Inr v"
    and "\<exists>v. recall_score_average y_true y_pred avg = Inr v"
    and "\<exists>v. f1_score_average y_true y_pred avg = Inr v"
proof -
  have ok: "check_targets y_true y_pred = Inr ()"
    using assms by (simp add: check_targets_ok)
  have ne: "present_labels y_true y_pred \<noteq> []"
    using assms(2) by (rule present_labels_nonempty)
  show "\<exists>v. precision_score_average y_true y_pred avg = Inr v"
    using averaged_ok [OF ne class_precision_eq]
    by (simp add: precision_score_average_def ok micro_precision_def zero_division_eq)
  show "\<exists>v. recall_score_average y_true y_pred avg = Inr v"
    using averaged_ok [OF ne class_recall_eq]
    by (simp add: recall_score_average_def ok micro_recall_def zero_division_eq)
  show "\<exists>v. f1_score_average y_true y_pred avg = Inr v"
    using averaged_ok [OF ne class_f1_eq]
    by (simp add: f1_score_average_def ok micro_precision_def micro_recall_def harmonic_mean_def
        zero_division_eq)
qed

lemma micro_macro_weighted_ok:
  assumes "length Y_pred = length Y_true" and "Y_true \<noteq> []"
  shows "\<exists>s. micro_macro_weighted Y_pred Y_true = Inr s"
proof -
  have len: "length Y_true = length Y_pred" using assms(1) by simp
  note sc = score_average_ok [OF len assms(2)]
  from sc(1) obtain p1 where p1: "precision_score_average Y_true Y_pred Micro = Inr p1" by blast
  from sc(1) obtain p2 where p2: "precision_score_average Y_true Y_pred Macro = Inr p2" by blast
  from sc(1) obtain p3 where p3: "precision_score_average Y_true Y_pred Weighted = Inr p3" by blast
  from sc(2) obtain r1 where r1: "recall_score_average Y_true Y_pred Micro = Inr r1" by blast
  from sc(2) obtain r2 where r2: "recall_score_average Y_true Y_pred Macro = Inr r2" by blast
  from sc(2) obtain r3 where r3: "recall_score_average Y_true Y_pred Weighted = Inr r3" by blast
  from sc(3) obtain f1 where f1: "f1_score_average Y_true Y_pred Micro = Inr f1" by blast
  from sc(3) obtain f2 where f2: "f1_score_average Y_true Y_pred Macro = Inr f2" by blast
  from sc(3) obtain f3 where f3: "f1_score_average Y_true Y_pred Weighted = Inr f3" by blast
  show ?thesis
    by (simp add: micro_macro_weighted_def p1 p2 p3 r1 r2 r3 f1 f2 f3)
qed

lemma confusion_matrix_ok:
  assumes "length Y_pred = length Y_true" and "set Y_true \<inter> set cl \<noteq> {}"
  shows "\<exists>cf. confusion_matrix Y_true Y_pred cl = Inr cf"
proof -
  from assms(2) have ne: "Y_true \<noteq> []" by auto
  from assms(2) have "cl \<noteq> []" by auto
  moreover from assms(2) have "filter (\<lambda>l. l \<in> set Y_true) cl \<noteq> []"
    by (auto simp: filter_empty_conv)
  ultimately show ?thesis
    using assms(1) ne by (simp add: confusion_matrix_def check_targets_ok)
qed

lemma confusion_matrix_reject:
  assumes "set Y_true \<inter> set cl = {}"
  shows "confusion_matrix Y_true Y_pred cl = Inl ValueError"
proof -
  from assms have "filter (\<lambda>l. l \<in> set Y_true) cl = []"
    by (auto simp: filter_empty_conv)
  then show ?thesis
    by (simp add: confusion_matrix_def split: sum.split) (simp add: check_targets_def split: if_splits)
qed

lemma predicted_positives_count: "predicted_positives c y_pred = count_list y_pred c"
  by (induction y_pred) (auto simp: predicted_positives_def)

lemma actual_positives_count: "actual_positives c y_true = count_list y_true c"
  by (induction y_true) (auto simp: actual_positives_def)

lemma true_positives_count: "true_positives c y_true y_pred = count_list (zip y_true y_pred) (c, c)"
proof -
  have "length (filter (\<lambda>(t, p). t = c \<and> p = c) zs) = count_list zs (c, c)"
    for zs :: "(string \<times> string) list"
    by (induction zs) auto
  then show ?thesis by (simp add: true_positives_def)
qed

lemma precision_of_count:
  "precision_of y_true y_pred c =
     (if count_list y_pred c = 0 then 0
      else real (count_list (zip y_true y_pred) (c, c)) / real (count_list y_pred c))"
  by (simp add: precision_of_def predicted_positives_count true_positives_count)

lemma recall_of_count:
  "recall_of y_true y_pred c =
     (if count_list y_true c = 0 then 0
      else real (count_list (zip y_true y_pred) (c, c)) / real (count_list y_true c))"
  by (simp add: recall_of_def actual_positives_count true_positives_count)

lemma matches_card:
  assumes "length ys = length ps"
  shows "length (filter (\<lambda>(t, p). t = p) (zip ys ps)) = card {i. i < length ys \<and> ps ! i = ys ! i}"
proof -
  have "{i. i < length (zip ys ps) \<and> (\<lambda>(t, p). t = p) (zip ys ps ! i)}
      = {i. i < length ys \<and> ps ! i = ys ! i}"
    using assms by auto
  then show ?thesis by (simp add: length_filter_conv_card)
qed

lemma matches_all: "length (filter (\<lambda>(t, p). t = p) (zip ys ys)) = length ys"
  by (induction ys) simp_all

lemma calculatePerformanceMetrics_assert:
  "length Y_pred \<noteq> length Y_true \<Longrightarrow>
   calculatePerformanceMetrics Y_pred Y_true dataset_type = Inl AssertionError"
  by (simp add: calculatePerformanceMetrics_def)

text \<open>With equal lengths and an actual label among the classes of \<open>classlist\<close>, all five
  computations succeed.\<close>

lemma calculatePerformanceMetrics_ok:
  assumes "length Y_pred = length Y_true" and "set Y_true \<inter> set classlist \<noteq> {}"
  shows "\<exists>s cf. calculatePerformanceMetrics Y_pred Y_true dataset_type =
     Inr \<lparr>num_incorrect = int (length Y_true)
              - int (length (filter (\<lambda>(t, p). t = p) (zip Y_true Y_pred))),
          accuracy = real (length (filter (\<lambda>(t, p). t = p) (zip Y_true Y_pred)))
                       / real (length Y_true),
          metrics = (\<lambda>c. if c \<in> set classlist
               then Some (dict [(''precision'', precision_of Y_true Y_pred c),
                                (''recall'', recall_of Y_true Y_pred c),
                                (''f1'', f1_of Y_true Y_pred c)])
               else None),
          micro_macro_weighted_scores = s, cf_matrix = cf\<rparr>"
proof -
  from assms(2) have ne: "Y_true \<noteq> []" by auto
  have ok: "check_targets Y_true Y_pred = Inr ()"
    using assms(1) ne by (simp add: check_targets_ok)
  from micro_macro_weighted_ok [OF assms(1) ne]
  obtain s where s: "micro_macro_weighted Y_pred Y_true = Inr s" by blast
  from confusion_matrix_ok [OF assms]
  obtain cf where cf: "confusion_matrix Y_true Y_pred classlist = Inr cf" by blast
  show ?thesis
    using assms(1) ne
    by (simp add: calculatePerformanceMetrics_def accuracy_score_def accuracy_score_count_def ok
        true_divide_def precision_recall_f1_ok s cf)
qed

text \<open>With equal lengths and no actual label among the classes of \<open>classlist\<close>, a library
  call rejects its arguments: the first one when the sequences are empty, and otherwise
  \<open>confusion_matrix\<close>, after the scores have been computed.\<close>

lemma calculatePerformanceMetrics_reject:
  assumes "length Y_pred = length Y_true" and "set Y_true \<inter> set classlist = {}"
  shows "calculatePerformanceMetrics Y_pred Y_true dataset_type = Inl ValueError"
proof (cases "Y_true = []")
  case True
  then show ?thesis
    using assms(1)
    by (simp add: calculatePerformanceMetrics_def accuracy_score_count_def check_targets_def)
next
  case False
  have ok: "check_targets Y_true Y_pred = Inr ()"
    using assms(1) False by (simp add: check_targets_ok)
  from micro_macro_weighted_ok [OF assms(1) False]
  obtain s where s: "micro_macro_weighted Y_pred Y_true = Inr s" by blast
  show ?thesis
    using assms(1) False
    by (simp add: calculatePerformanceMetrics_def accuracy_score_def accuracy_score_count_def ok
        true_divide_def precision_recall_f1_ok s confusion_matrix_reject [OF assms(2)])
qed

lemma absent_pred:
  assumes "c \<notin> set y_pred"
  shows "true_positives c y_true y_pred = 0" "predicted_positives c y_pred = 0"
proof -
  from assms have "(c, c) \<notin> set (zip y_true y_pred)" by (auto dest: set_zip_rightD)
  then show "true_positives c y_true y_pred = 0" by (simp add: true_positives_count)
  from assms show "predicted_positives c y_pred = 0" by (simp add: predicted_positives_count)
qed

lemma absent_true:
  assumes "c \<notin> set y_true"
  shows "true_positives c y_true y_pred = 0" "actual_positives c y_true = 0"
proof -
  from assms have "(c, c) \<notin> set (zip y_true y_pred)" by (auto dest: set_zip_leftD)
  then show "true_positives c y_true y_pred = 0" by (simp add: true_positives_count)
  from assms show "actual_positives c y_true = 0" by (simp add: actual_positives_count)
qed

text \<open>A class that is never predicted, or never the actual label, has no true positive, and
  then all three of its scores are zero.\<close>

lemma degenerate_scores:
  assumes "c \<notin> set y_pred \<or> c \<notin> set y_true"
  shows "precision_of y_true y_pred c = 0" "recall_of y_true y_pred c = 0"
        "f1_of y_true y_pred c = 0"
proof -
  from assms have tp: "true_positives c y_true y_pred = 0"
    using absent_pred(1) absent_true(1) by blast
  show p: "precision_of y_true y_pred c = 0"
    by (simp add: precision_of_def tp)
  show r: "recall_of y_true y_pred c = 0"
    by (simp add: recall_of_def tp)
  show "f1_of y_true y_pred c = 0"
    by (simp add: f1_of_def p r)
qed

lemma scores_lookup:
  "dict [(''precision'', p), (''recall'', r), (''f1'', f)] ''precision'' = Some p"
  "dict [(''precision'', p), (''recall'', r), (''f1'', f)] ''recall'' = Some r"
  "dict [(''precision'', p), (''recall'', r), (''f1'', f)] ''f1'' = Some f"
  by (simp_all add: dict_def)

lemma card_classlist: "card (set classlist) = 5"
  by (simp add: classlist_def)

text \<open>Claim C4. \<open>calculatePerformanceMetrics\<close> fails with \<open>AssertionError\<close> (the
  length-mismatch error) exactly when the predicted and the actual label sequences have
  different lengths, as for 3 predicted and 4 actual labels, and it goes on to compute the
  report only when the lengths are equal.\<close>

theorem C4_length_mismatch:
  "(calculatePerformanceMetrics Y_pred Y_true dataset_type = Inl AssertionError
      \<longleftrightarrow> length Y_pred \<noteq> length Y_true) \<and>
   ((\<exists>r. calculatePerformanceMetrics Y_pred Y_true dataset_type = Inr r)
      \<longrightarrow> length Y_pred = length Y_true)"
proof (cases "length Y_pred = length Y_true")
  case False
  then show ?thesis by (simp add: calculatePerformanceMetrics_assert)
next
  case True
  show ?thesis
  proof (cases "set Y_true \<inter> set classlist = {}")
    case True
    with \<open>length Y_pred = length Y_true\<close> show ?thesis
      by (simp add: calculatePerformanceMetrics_reject)
  next
    case False
    from calculatePerformanceMetrics_ok [OF \<open>length Y_pred = length Y_true\<close> False, of dataset_type]
    obtain r where "calculatePerformanceMetrics Y_pred Y_true dataset_type = Inr r" by blast
    with \<open>length Y_pred = length Y_true\<close> show ?thesis by simp
  qed
qed

theorem C4_length_mismatch_witness:
  "calculatePerformanceMetrics [''skills'', ''others'', ''skills'']
     [''skills'', ''others'', ''skills'', ''education''] ''testing'' = Inl AssertionError"
  using C4_length_mismatch [of "[''skills'', ''others'', ''skills'']"
      "[''skills'', ''others'', ''skills'', ''education'']" "''testing''"]
  by simp

text \<open>Claim C8, as the code has it. For every pair of equal-length predicted and actual
  label sequences in which at least one actual label is one of the 5 classes of the fixed
  ordering, the report is computed, its accuracy equals the fraction of positions where the
  predicted and the actual label match exactly, and its incorrect count equals the total
  length minus the number of matches. In particular, when for such a pair predicted equals
  actual at every position, the accuracy is 1.0 and the incorrect count is 0.\<close>

theorem C8_accuracy:
  assumes "length Y_pred = length Y_true" and "set Y_true \<inter> set classlist \<noteq> {}"
  shows "\<exists>r. calculatePerformanceMetrics Y_pred Y_true dataset_type = Inr r \<and>
     num_incorrect r =
       int (length Y_true) - int (card {i. i < length Y_true \<and> Y_pred ! i = Y_true ! i}) \<and>
     accuracy r =
       real (card {i. i < length Y_true \<and> Y_pred ! i = Y_true ! i}) / real (length Y_true) \<and>
     (Y_pred = Y_true \<longrightarrow> num_incorrect r = 0 \<and> accuracy r = 1)"
proof -
  from assms(2) have ne: "Y_true \<noteq> []" by auto
  have eq: "Y_pred = Y_true \<Longrightarrow>
      length (filter (\<lambda>(t, p). t = p) (zip Y_true Y_pred)) = length Y_true"
    by (simp add: matches_all)
  have card: "length (filter (\<lambda>(t, p). t = p) (zip Y_true Y_pred))
      = card {i. i < length Y_true \<and> Y_pred ! i = Y_true ! i}"
    using assms(1) by (simp add: matches_card)
  from calculatePerformanceMetrics_ok [OF assms, of dataset_type]
  obtain s cf where r: "calculatePerformanceMetrics Y_pred Y_true dataset_type =
     Inr \<lparr>num_incorrect = int (length Y_true)
              - int (length (filter (\<lambda>(t, p). t = p) (zip Y_true Y_pred))),
          accuracy = real (length (filter (\<lambda>(t, p). t = p) (zip Y_true Y_pred)))
                       / real (length Y_true),
          metrics = (\<lambda>c. if c \<in> set classlist
               then Some (dict [(''precision'', precision_of Y_true Y_pred c),
                                (''recall'', recall_of Y_true Y_pred c),
                                (''f1'', f1_of Y_true Y_pred c)])
               else None),
          micro_macro_weighted_scores = s, cf_matrix = cf\<rparr>"
    by blast
  show ?thesis
    unfolding r using eq card ne by auto
qed

theorem C8_accuracy_witness:
  "map_sum id accuracy
     (calculatePerformanceMetrics [''skills'', ''others''] [''skills'', ''others''] ''testing'')
     = Inr 1 \<and>
   map_sum id num_incorrect
     (calculatePerformanceMetrics [''skills'', ''others''] [''skills'', ''others''] ''testing'')
     = Inr 0 \<and>
   map_sum id accuracy
     (calculatePerformanceMetrics [''skills'', ''others''] [''skills'', ''skills''] ''testing'')
     = Inr (1 / 2) \<and>
   map_sum id num_incorrect
     (calculatePerformanceMetrics [''skills'', ''others''] [''skills'', ''skills''] ''testing'')
     = Inr 1"
proof -
  have len: "length [''skills'', ''others''] = length [''skills'', ''others'']" by simp
  have cls: "set [''skills'', ''others''] \<inter> set classlist \<noteq> {}" by (simp add: classlist_def)
  from C8_accuracy [OF len cls, of "''testing''"]
  obtain r where r: "calculatePerformanceMetrics [''skills'', ''others''] [''skills'', ''others'']
        ''testing'' = Inr r"
    and same: "[''skills'', ''others''] = [''skills'', ''others'']
        \<longrightarrow> num_incorrect r = 0 \<and> accuracy r = 1"
    by (elim exE conjE)
  from same have one: "num_incorrect r = 0 \<and> accuracy r = 1" by simp
  have len': "length [''skills'', ''others''] = length [''skills'', ''skills'']" by simp
  have cls': "set [''skills'', ''skills''] \<inter> set classlist \<noteq> {}" by (simp add: classlist_def)
  from calculatePerformanceMetrics_ok [OF len' cls', of "''testing''"]
  obtain s cf where half: "calculatePerformanceMetrics [''skills'', ''others'']
        [''skills'', ''skills''] ''testing'' =
     Inr \<lparr>num_incorrect = int (length [''skills'', ''skills''])
              - int (length (filter (\<lambda>(t, p). t = p)
                               (zip [''skills'', ''skills''] [''skills'', ''others'']))),
          accuracy = real (length (filter (\<lambda>(t, p). t = p)
                               (zip [''skills'', ''skills''] [''skills'', ''others''])))
                       / real (length [''skills'', ''skills'']),
          metrics = (\<lambda>c. if c \<in> set classlist
               then Some (dict [(''precision'',
                                   precision_of [''skills'', ''skills''] [''skills'', ''others''] c),
                                (''recall'',
                                   recall_of [''skills'', ''skills''] [''skills'', ''others''] c),
                                (''f1'', f1_of [''skills'', ''skills''] [''skills'', ''others''] c)])
               else None),
          micro_macro_weighted_scores = s, cf_matrix = cf\<rparr>"
    by blast
  show ?thesis
    unfolding half using one by (simp add: r)
qed

text \<open>Claim C8 as it is worded covers every pair of equal-length sequences. For the
  predicted labels \<open>['others', 'skills']\<close> and the actual labels \<open>['hobbies', 'hobbies']\<close>
  no actual label is one of the classes of \<open>classlist\<close>: \<open>confusion_matrix\<close> rejects them
  with \<open>ValueError\<close>, and the function ends without a report, so without an accuracy and
  an incorrect count.\<close>

theorem C8_no_class_label_counterexample:
  "calculatePerformanceMetrics [''others'', ''skills''] [''hobbies'', ''hobbies''] ''testing''
     = Inl ValueError"
proof -
  have "set [''hobbies'', ''hobbies''] \<inter> set classlist = {}" by (simp add: classlist_def)
  then show ?thesis by (simp add: calculatePerformanceMetrics_reject)
qed

text \<open>Claim C9, as the code has it. For every pair of equal-length label sequences in which
  at least one actual label is one of the 5 classes of the fixed ordering, the report is
  computed and holds a precision, a recall and an F1 score for each of the 5 classes:
  precision TP/(TP+FP), recall TP/(TP+FN) and their harmonic mean, each defined as zero
  where its denominator is zero instead of failing on the division. A class with no
  predicted-positive instance or no actual-positive instance has all three scores zero.\<close>

theorem C9_degenerate_zero:
  assumes "length Y_pred = length Y_true" and "set Y_true \<inter> set classlist \<noteq> {}"
  shows "\<exists>rep. calculatePerformanceMetrics Y_pred Y_true dataset_type = Inr rep \<and>
     dom (metrics rep) = set classlist \<and> card (dom (metrics rep)) = 5 \<and>
     (\<forall>c \<in> set classlist. \<exists>d p r f.
        metrics rep c = Some d \<and>
        d ''precision'' = Some p \<and> d ''recall'' = Some r \<and> d ''f1'' = Some f \<and>
        p = (if count_list Y_pred c = 0 then 0
             else real (count_list (zip Y_true Y_pred) (c, c)) / real (count_list Y_pred c)) \<and>
        r = (if count_list Y_true c = 0 then 0
             else real (count_list (zip Y_true Y_pred) (c, c)) / real (count_list Y_true c)) \<and>
        f = (if p + r = 0 then 0 else 2 * p * r / (p + r)) \<and>
        (c \<notin> set Y_pred \<or> c \<notin> set Y_true \<longrightarrow> p = 0 \<and> r = 0 \<and> f = 0))"
    (is "\<exists>rep. _ \<and> _ \<and> _ \<and> ?D rep")
proof -
  let ?m = "\<lambda>c. if c \<in> set classlist
               then Some (dict [(''precision'', precision_of Y_true Y_pred c),
                                (''recall'', recall_of Y_true Y_pred c),
                                (''f1'', f1_of Y_true Y_pred c)])
               else None"
  from calculatePerformanceMetrics_ok [OF assms, of dataset_type]
  obtain rep where rep: "calculatePerformanceMetrics Y_pred Y_true dataset_type = Inr rep"
    and met: "metrics rep = ?m"
    by auto
  have dom: "dom ?m = set classlist" by (auto simp: dom_def)
  then have card: "card (dom ?m) = 5" by (simp only: card_classlist)
  have each: "\<exists>d p r f.
        ?m c = Some d \<and> d ''precision'' = Some p \<and> d ''recall'' = Some r \<and> d ''f1'' = Some f \<and>
        p = (if count_list Y_pred c = 0 then 0
             else real (count_list (zip Y_true Y_pred) (c, c)) / real (count_list Y_pred c)) \<and>
        r = (if count_list Y_true c = 0 then 0
             else real (count_list (zip Y_true Y_pred) (c, c)) / real (count_list Y_true c)) \<and>
        f = (if p + r = 0 then 0 else 2 * p * r / (p + r)) \<and>
        (c \<notin> set Y_pred \<or> c \<notin> set Y_true \<longrightarrow> p = 0 \<and> r = 0 \<and> f = 0)"
    if c: "c \<in> set classlist" for c
  proof (intro exI conjI)
    show "?m c = Some (dict [(''precision'', precision_of Y_true Y_pred c),
                             (''recall'', recall_of Y_true Y_pred c),
                             (''f1'', f1_of Y_true Y_pred c)])"
      using c by simp
    show "dict [(''precision'', precision_of Y_true Y_pred c),
                (''recall'', recall_of Y_true Y_pred c),
                (''f1'', f1_of Y_true Y_pred c)] ''precision'' = Some (precision_of Y_true Y_pred c)"
      by (rule scores_lookup)
    show "dict [(''precision'', precision_of Y_true Y_pred c),
                (''recall'', recall_of Y_true Y_pred c),
                (''f1'', f1_of Y_true Y_pred c)] ''recall'' = Some (recall_of Y_true Y_pred c)"
      by (rule scores_lookup)
    show "dict [(''precision'', precision_of Y_true Y_pred c),
                (''recall'', recall_of Y_true Y_pred c),
                (''f1'', f1_of Y_true Y_pred c)] ''f1'' = Some (f1_of Y_true Y_pred c)"
      by (rule scores_lookup)
    show "precision_of Y_true Y_pred c = (if count_list Y_pred c = 0 then 0
             else real (count_list (zip Y_true Y_pred) (c, c)) / real (count_list Y_pred c))"
      by (rule precision_of_count)
    show "recall_of Y_true Y_pred c = (if count_list Y_true c = 0 then 0
             else real (count_list (zip Y_true Y_pred) (c, c)) / real (count_list Y_true c))"
      by (rule recall_of_count)
    show "f1_of Y_true Y_pred c =
        (if precision_of Y_true Y_pred c + recall_of Y_true Y_pred c = 0 then 0
         else 2 * precision_of Y_true Y_pred c * recall_of Y_true Y_pred c
                / (precision_of Y_true Y_pred c + recall_of Y_true Y_pred c))"
      by (rule f1_of_def)
    show "c \<notin> set Y_pred \<or> c \<notin> set Y_true \<longrightarrow>
        precision_of Y_true Y_pred c = 0 \<and> recall_of Y_true Y_pred c = 0 \<and>
        f1_of Y_true Y_pred c = 0"
      by (simp add: degenerate_scores)
  qed
  show ?thesis
  proof (rule exI [where x = rep], intro conjI)
    show "calculatePerformanceMetrics Y_pred Y_true dataset_type = Inr rep" by (rule rep)
    show "dom (metrics rep) = set classlist" unfolding met by (rule dom)
    show "card (dom (metrics rep)) = 5" unfolding met by (rule card)
    show "?D rep" unfolding met by (intro ballI) (rule each)
  qed
qed

theorem C9_degenerate_zero_witness:
  "map_sum id (\<lambda>rep. map_option (\<lambda>d. (d ''precision'', d ''recall'', d ''f1''))
                       (metrics rep ''description''))
     (calculatePerformanceMetrics [''skills'', ''others''] [''skills'', ''education''] ''testing'')
     = Inr (Some (Some 0, Some 0, Some 0)) \<and>
   map_sum id (\<lambda>rep. map_option (\<lambda>d. (d ''precision'', d ''recall'', d ''f1''))
                       (metrics rep ''skills''))
     (calculatePerformanceMetrics [''skills'', ''others''] [''skills'', ''education''] ''testing'')
     = Inr (Some (Some 1, Some 1, Some 1))"
proof -
  have len: "length [''skills'', ''others''] = length [''skills'', ''education'']" by simp
  have cls: "set [''skills'', ''education''] \<inter> set classlist \<noteq> {}" by (simp add: classlist_def)
  have c1: "''description'' \<in> set classlist" by (simp add: classlist_def)
  have c2: "''skills'' \<in> set classlist" by (simp add: classlist_def)
  from C9_degenerate_zero [OF len cls, of "''testing''"]
  obtain rep where rep: "calculatePerformanceMetrics [''skills'', ''others'']
        [''skills'', ''education''] ''testing'' = Inr rep"
    and every: "\<forall>c \<in> set classlist. \<exists>d p r f.
        metrics rep c = Some d \<and>
        d ''precision'' = Some p \<and> d ''recall'' = Some r \<and> d ''f1'' = Some f \<and>
        p = (if count_list [''skills'', ''others''] c = 0 then 0
             else real (count_list (zip [''skills'', ''education''] [''skills'', ''others'']) (c, c))
                    / real (count_list [''skills'', ''others''] c)) \<and>
        r = (if count_list [''skills'', ''education''] c = 0 then 0
             else real (count_list (zip [''skills'', ''education''] [''skills'', ''others'']) (c, c))
                    / real (count_list [''skills'', ''education''] c)) \<and>
        f = (if p + r = 0 then 0 else 2 * p * r / (p + r)) \<and>
        (c \<notin> set [''skills'', ''others''] \<or> c \<notin> set [''skills'', ''education'']
           \<longrightarrow> p = 0 \<and> r = 0 \<and> f = 0)"
    by (elim exE conjE)
  from every c1 obtain d1 p1 r1 f1 where e: "metrics rep ''description'' = Some d1"
      "d1 ''precision'' = Some p1" "d1 ''recall'' = Some r1" "d1 ''f1'' = Some f1"
    and z: "''description'' \<notin> set [''skills'', ''others'']
              \<or> ''description'' \<notin> set [''skills'', ''education'']
           \<longrightarrow> p1 = 0 \<and> r1 = 0 \<and> f1 = 0"
    by (elim ballE exE conjE) (assumption, simp)
  from z have z': "p1 = 0 \<and> r1 = 0 \<and> f1 = 0" by simp
  from every c2 obtain d2 p2 r2 f2 where s: "metrics rep ''skills'' = Some d2"
      "d2 ''precision'' = Some p2" "d2 ''recall'' = Some r2" "d2 ''f1'' = Some f2"
    and p2: "p2 = (if count_list [''skills'', ''others''] ''skills'' = 0 then 0
             else real (count_list (zip [''skills'', ''education''] [''skills'', ''others''])
                          (''skills'', ''skills''))
                    / real (count_list [''skills'', ''others''] ''skills''))"
    and r2: "r2 = (if count_list [''skills'', ''education''] ''skills'' = 0 then 0
             else real (count_list (zip [''skills'', ''education''] [''skills'', ''others''])
                          (''skills'', ''skills''))
                    / real (count_list [''skills'', ''education''] ''skills''))"
    and f2: "f2 = (if p2 + r2 = 0 then 0 else 2 * p2 * r2 / (p2 + r2))"
    by (elim ballE exE conjE) (assumption, simp)
  from p2 have p2': "p2 = 1" by simp
  from r2 have r2': "r2 = 1" by simp
  from f2 p2' r2' have f2': "f2 = 1" by simp
  show ?thesis by (simp add: rep e s z' p2' r2' f2')
qed

text \<open>Claim C9 as it is worded has the report always computed. For the predicted labels
  \<open>['skills']\<close> and the actual labels \<open>['hobbies']\<close> all five classes have no actual-positive
  instance; their scores are computed as zeros, but \<open>confusion_matrix\<close> then rejects the
  labels with \<open>ValueError\<close>, and the function ends without a report.\<close>

theorem C9_no_class_label_counterexample:
  "calculatePerformanceMetrics [''skills''] [''hobbies''] ''testing'' = Inl ValueError"
proof -
  have "set [''hobbies''] \<inter> set classlist = {}" by (simp add: classlist_def)
  then show ?thesis by (simp add: calculatePerformanceMetrics_reject)
qed

end
